theory Spec2Isabelle
  imports Main "HOL-Library.Char_ord" "HOL-Library.List_Lexorder" "HOL-Library.AList"
begin

section \<open>Python values\<close>

text \<open>
  A Python \<open>str\<close> is a \<^typ>\<open>string\<close>: a list of characters with code points below 256.
  Every \<open>raise\<close>, failed \<open>assert\<close> and out-of-range index of the source is a value of
  \<open>error\<close>; the text carried by \<open>ValueError\<close> and \<open>RuntimeError\<close> is the leading words of the
  source's message (the source appends a dump of the offending node, which is not modelled).
\<close>

datatype error =
    AssertionError
  | IndexError
  | AttributeError
  | TypeError
  | NotImplementedError
  | ValueError string
  | RuntimeError string

text \<open>\<open>s.startswith(p)\<close>.\<close>

definition startswith :: "string \<Rightarrow> string \<Rightarrow> bool" where
  "startswith s p = (take (length p) s = p)"

text \<open>\<open>s.split(c)\<close> for a one-character separator: the result is never empty.\<close>

fun py_split :: "char \<Rightarrow> string \<Rightarrow> string list" where
  "py_split c [] = [[]]"
| "py_split c (x # xs) =
     (if x = c then [] # py_split c xs
      else (case py_split c xs of [] \<Rightarrow> [[x]] | t # ts \<Rightarrow> (x # t) # ts))"

text \<open>\<open>s.split(c, maxsplit=1)\<close>: one element, or the text before and after the first \<open>c\<close>.\<close>

definition py_split1 :: "char \<Rightarrow> string \<Rightarrow> string list" where
  "py_split1 c s =
     (if c \<in> set s then [takeWhile (\<lambda>x. x \<noteq> c) s, tl (dropWhile (\<lambda>x. x \<noteq> c) s)]
      else [s])"

text \<open>\<open>s.find(c)\<close>: the index of the first \<open>c\<close>, or \<open>-1\<close>.\<close>

definition py_find :: "char \<Rightarrow> string \<Rightarrow> int" where
  "py_find c s = (if c \<in> set s then int (length (takeWhile (\<lambda>x. x \<noteq> c) s)) else - 1)"

text \<open>
  The characters \<open>str.isspace\<close> accepts below code point 256; \<open>split()\<close> without a
  separator and \<open>strip()\<close> use the same set.
\<close>

definition py_isspace :: "char \<Rightarrow> bool" where
  "py_isspace c =
     (of_char c \<in> {9, 10, 11, 12, 13, 28, 29, 30, 31, 32, 133, 160 :: nat})"

text \<open>\<open>s.split()\<close>: the maximal runs of characters that are not whitespace.\<close>

function py_split_ws :: "string \<Rightarrow> string list" where
  "py_split_ws [] = []"
| "py_split_ws (c # cs) =
     (if py_isspace c then py_split_ws cs
      else (c # takeWhile (\<lambda>x. \<not> py_isspace x) cs)
             # py_split_ws (dropWhile (\<lambda>x. \<not> py_isspace x) cs))"
  by pat_completeness auto
termination
  by (relation "measure length") (auto simp: le_imp_less_Suc length_dropWhile_le)

text \<open>
  \<open>s.split(maxsplit=1)\<close>: the first run, then the rest of the string from the next
  character that is not whitespace (its trailing whitespace is kept).
\<close>

definition py_split_ws1 :: "string \<Rightarrow> string list" where
  "py_split_ws1 s =
     (case dropWhile py_isspace s of
        [] \<Rightarrow> []
      | c # cs \<Rightarrow>
          (let tok = c # takeWhile (\<lambda>x. \<not> py_isspace x) cs;
               rest = dropWhile py_isspace (dropWhile (\<lambda>x. \<not> py_isspace x) cs)
           in if rest = [] then [tok] else [tok, rest]))"

text \<open>\<open>s.strip()\<close>.\<close>

definition py_strip :: "string \<Rightarrow> string" where
  "py_strip s = rev (dropWhile py_isspace (rev (dropWhile py_isspace s)))"

text \<open>\<open>sep.join(xs)\<close>.\<close>

fun py_join :: "string \<Rightarrow> string list \<Rightarrow> string" where
  "py_join sep [] = []"
| "py_join sep [x] = x"
| "py_join sep (x # y # ys) = x @ sep @ py_join sep (y # ys)"

text \<open>
  \<open>s.lower()\<close> below code point 256: the ASCII capitals and the Latin-1 capitals
  (\<open>0xC0\<close> to \<open>0xDE\<close> without the multiplication sign \<open>0xD7\<close>) move up by 32.
\<close>

definition lower_char :: "char \<Rightarrow> char" where
  "lower_char c =
     (let n = (of_char c :: nat)
      in if (65 \<le> n \<and> n \<le> 90) \<or> (192 \<le> n \<and> n \<le> 222 \<and> n \<noteq> 215)
         then char_of (n + 32) else c)"

definition lower :: "string \<Rightarrow> string" where
  "lower s = map lower_char s"

text \<open>\<open>sorted(list(set(xs)))\<close> on strings: Python compares strings by code point.\<close>

definition sorted_set :: "string list \<Rightarrow> string list" where
  "sorted_set xs = sorted_list_of_set (set xs)"

text \<open>
  \<open>re.match(XSMODEL_RE, s)\<close> with \<open>XSMODEL_RE = '^XS[a-z0-9]+$'\<close>. In Python \<open>$\<close> also
  matches before a newline that ends the string.
\<close>

definition lower_alnum :: "char \<Rightarrow> bool" where
  "lower_alnum c =
     (let n = (of_char c :: nat) in (97 \<le> n \<and> n \<le> 122) \<or> (48 \<le> n \<and> n \<le> 57))"

definition xsmodel_re :: "string \<Rightarrow> bool" where
  "xsmodel_re s =
     (startswith s ''XS'' \<and>
      (let body = takeWhile lower_alnum (drop 2 s);
           e = dropWhile lower_alnum (drop 2 s)
       in body \<noteq> [] \<and> (e = [] \<or> e = [CHR 0x0A])))"

text \<open>
  \<open>re.match(XSVERSION_WARNING, s)\<close> with
  \<open>XSVERSION_WARNING = '^This model requires XSPEC 12\.\d\d\.\d or later.$'\<close>: the last
  dot is not escaped, so it is any character but a newline.
\<close>

definition is_digit :: "char \<Rightarrow> bool" where
  "is_digit c = (let n = (of_char c :: nat) in 48 \<le> n \<and> n \<le> 57)"

definition xsversion_warning :: "string \<Rightarrow> bool" where
  "xsversion_warning s =
     (startswith s ''This model requires XSPEC 12.'' \<and>
      (case drop 29 s of
         d1 # d2 # dot # d3 # r \<Rightarrow>
           is_digit d1 \<and> is_digit d2 \<and> dot = CHR ''.'' \<and> is_digit d3 \<and>
           startswith r '' or later'' \<and>
           (case drop 9 r of
              [c] \<Rightarrow> c \<noteq> CHR 0x0A
            | [c, e] \<Rightarrow> c \<noteq> CHR 0x0A \<and> e = CHR 0x0A
            | _ \<Rightarrow> False)
       | _ \<Rightarrow> False))"

section \<open>Input and output trees\<close>

text \<open>
  A docutils node, as the converter reads it: its \<open>tagname\<close> (\<open>#text\<close> for a text node),
  the attributes \<open>name\<close>, \<open>names\<close> and \<open>refuri\<close> the converter asks for with \<open>node.get\<close>,
  the string the docutils library returns for \<open>node.astext()\<close> (library code outside the
  repository, so it is a field of the node and every result holds whatever the library
  computes), and the child nodes.
\<close>

datatype node =
  Node (tagname: string) (get_name: "string option") (get_names: "string list")
       (get_refuri: "string option") (node_astext: string) (children: "node list")

text \<open>
  An \<open>ElementTree.Element\<close>: tag, attribute dictionary (in insertion order; \<open>link\<close> is set
  from \<open>refuri\<close>, which may be \<open>None\<close>), \<open>text\<close>, \<open>tail\<close> and sub-elements.
\<close>

datatype xml =
  Element (el_tag: string) (el_attrib: "(string \<times> string option) list")
          (el_text: "string option") (el_tail: "string option") (el_children: "xml list")

definition el_set :: "string \<Rightarrow> string option \<Rightarrow> xml \<Rightarrow> xml" where
  "el_set k v e =
     Element (el_tag e) (AList.update k v (el_attrib e)) (el_text e) (el_tail e)
       (el_children e)"

definition el_get :: "xml \<Rightarrow> string \<Rightarrow> string option" where
  "el_get e k = (case map_of (el_attrib e) k of None \<Rightarrow> None | Some v \<Rightarrow> v)"

definition set_text :: "string option \<Rightarrow> xml \<Rightarrow> xml" where
  "set_text t e = Element (el_tag e) (el_attrib e) t (el_tail e) (el_children e)"

definition set_tail :: "string option \<Rightarrow> xml \<Rightarrow> xml" where
  "set_tail t e = Element (el_tag e) (el_attrib e) (el_text e) t (el_children e)"

section \<open>Release numbering\<close>

text \<open>
  \<open>convert_version_number\<close> (docutils.py, line 53): from Sherpa to CIAO numbering. The two
  assertions come first, then the rule that drops a trailing \<open>.0\<close>, then the shifted
  releases in the order of the source.
\<close>

definition convert_version_number :: "string \<Rightarrow> error + string" where
  "convert_version_number v =
     (case py_split (CHR ''.'') v of
        [t0, t1, t2] \<Rightarrow>
          if t0 \<noteq> ''4'' then Inl AssertionError
          else if t2 = ''0'' then Inr (t0 @ ''.'' @ t1)
          else if startswith v ''4.17.'' then Inr ''4.18''
          else if startswith v ''4.16.'' then Inr ''4.17''
          else if startswith v ''4.15.'' then Inr ''4.16''
          else if startswith v ''4.14.'' then Inr ''4.15''
          else if startswith v ''4.13.'' then Inr ''4.14''
          else if v = ''4.12.2'' then Inr ''4.13''
          else if v = ''4.10.1'' then Inr ''4.11''
          else Inr v
      | _ \<Rightarrow> Inl AssertionError)"

section \<open>The reference registry\<close>

text \<open>
  The module-level set \<open>references\<close> (line 176) is passed explicitly. A function that adds
  to it returns the new set beside its result, also when it raises: the set is global, so
  what was added before an exception stays.
\<close>

definition process_reference ::
  "node \<Rightarrow> string set \<Rightarrow> (error + string \<times> string option) \<times> string set" where
  "process_reference n refs =
     (if tagname n \<noteq> ''reference'' then (Inl AssertionError, refs)
      else (Inr (node_astext n, get_refuri n),
            (case get_name n of None \<Rightarrow> refs | Some nm \<Rightarrow> insert (lower nm) refs)))"

definition process_target :: "node \<Rightarrow> string set \<Rightarrow> error + unit" where
  "process_target n refs =
     (if tagname n \<noteq> ''target'' then Inl AssertionError
      else (case get_names n of
              [nm] \<Rightarrow>
                if lower nm \<notin> refs then Inl (ValueError ''Found un-referenced target block'')
                else Inr ()
            | _ \<Rightarrow> Inl AssertionError))"

section \<open>Inline text\<close>

text \<open>
  \<open>astext\<close> (line 209). The branches are tested in the order of the source; the second
  test for \<open>reference\<close> (line 321) can never be reached and is left out. \<open>astext_each\<close> is
  the loop over the children of a container, which stops at the first child that raises.
\<close>

fun astext :: "string set \<Rightarrow> node \<Rightarrow> error + string"
  and astext_each :: "string set \<Rightarrow> node list \<Rightarrow> error + string list" where
  "astext refs (Node tg nm nms uri txt cs) =
     (if tg = ''system_message'' then Inr ''''
      else if tg = ''#text'' then Inr txt
      else if tg = ''reference'' then Inr txt
      else if tg = ''footnote'' then
        (case cs of
           [] \<Rightarrow> Inl IndexError
         | c0 # r \<Rightarrow>
             if tagname c0 \<noteq> ''label'' then Inl AssertionError
             else (case r of
                     [] \<Rightarrow> Inl IndexError
                   | c1 # r' \<Rightarrow>
                       if tagname c1 = ''paragraph'' \<or> tagname c1 = ''enumerated_list'' then
                         (case astext refs c1 of
                            Inl e \<Rightarrow> Inl e
                          | Inr cts \<Rightarrow> Inr (''['' @ node_astext c0 @ '']'' @ '' '' @ cts))
                       else Inl (ValueError ''Unexpected node'')))
      else if tg = ''footnote_reference'' then Inr (''['' @ txt @ '']'')
      else if tg = ''title_reference'' then
        (if txt \<in> set [''sherpa.sim'', ''sherpa.utils'', ''sherpa.astro.datastack'',
                        ''sherpa.ui'', ''sherpa.astro.ui'', ''sherpa.utils.logging'']
         then Inr (''`'' @ txt @ ''`'')
         else if startswith txt ''sherpa.'' \<or> startswith txt ''~'' then
           (let toks = py_split (CHR ''.'') txt
            in if \<not> length toks > 1 then Inl AssertionError
               else if last toks \<in> set [''JDPileup'', ''PSFModel'']
               then Inr (''`'' @ lower (last toks) @ ''`'')
               else Inr (''`'' @ last toks @ ''`''))
         else if startswith txt ''sherpa'' then Inl AssertionError
         else Inr (''`'' @ txt @ ''`''))
      else if tg = ''literal'' then
        (if txt \<in> set [''True'', ''False'', ''StringIO''] then Inr txt
         else if startswith txt ''XS'' \<and> \<not> xsmodel_re txt then Inl AssertionError
         else Inr (lower txt))
      else if tg = ''emphasis'' then Inr txt
      else if tg = ''strong'' then Inr txt
      else if tg = ''target'' then
        (case process_target (Node tg nm nms uri txt cs) refs of
           Inl e \<Rightarrow> Inl e
         | Inr u \<Rightarrow> Inr '''')
      else if tg = ''citation_reference'' then Inr (''['' @ txt @ '']'')
      else if tg \<notin> set [''paragraph'', ''list_item'', ''enumerated_list''] then
        Inl AssertionError
      else (case astext_each refs cs of
              Inl e \<Rightarrow> Inl e
            | Inr out \<Rightarrow> Inr (py_join '' '' out)))"
| "astext_each refs [] = Inr []"
| "astext_each refs (c # cs) =
     (case astext refs c of
        Inl e \<Rightarrow> Inl e
      | Inr t \<Rightarrow>
          (case astext_each refs cs of Inl e \<Rightarrow> Inl e | Inr ts \<Rightarrow> Inr (t # ts)))"

section \<open>Paragraphs\<close>

definition make_href :: "node \<Rightarrow> string set \<Rightarrow> (error + xml) \<times> string set" where
  "make_href n refs =
     (case process_reference n refs of
        (Inl e, refs') \<Rightarrow> (Inl e, refs')
      | (Inr (txt, uri), refs') \<Rightarrow>
          (Inr (Element ''HREF'' [(''link'', uri)] (Some txt) None []), refs'))"

text \<open>\<open>make_href_text\<close>: an f-string prints a missing \<open>refuri\<close> as \<open>None\<close>.\<close>

definition make_href_text :: "node \<Rightarrow> string set \<Rightarrow> (error + string) \<times> string set" where
  "make_href_text n refs =
     (case process_reference n refs of
        (Inl e, refs') \<Rightarrow> (Inl e, refs')
      | (Inr (txt, uri), refs') \<Rightarrow>
          (Inr (txt @ '' ['' @ (case uri of None \<Rightarrow> ''None'' | Some u \<Rightarrow> u) @ '']''),
           refs'))"

text \<open>
  \<open>convert_para\<close> (line 414). The loop variables are \<open>text\<close>, the element \<open>out\<close> and \<open>href\<close>.
  In the source \<open>href\<close> is the element appended to \<open>out\<close> last, and \<open>href.tail = ...\<close>
  changes that child in place; here \<open>out\<close> holds the children that are finished and \<open>href\<close>
  the last one, which \<open>para_close\<close> puts behind them once its tail is set.
\<close>

definition para_close :: "string list \<Rightarrow> xml \<Rightarrow> xml option \<Rightarrow> xml" where
  "para_close text out href =
     (case href of
        None \<Rightarrow> set_text (Some (py_join [CHR 0x0A] text)) out
      | Some h \<Rightarrow>
          Element (el_tag out) (el_attrib out) (el_text out) (el_tail out)
            (el_children out @ [set_tail (Some (py_join [CHR 0x0A] text)) h]))"

fun para_loop ::
  "bool \<Rightarrow> node list \<Rightarrow> string list \<Rightarrow> xml \<Rightarrow> xml option \<Rightarrow> string set
     \<Rightarrow> (error + xml) \<times> string set" where
  "para_loop complex [] text out href refs = (Inr (para_close text out href), refs)"
| "para_loop complex (n # ns) text out href refs =
     (if tagname n = ''target'' then
        (case process_target n refs of
           Inl e \<Rightarrow> (Inl e, refs)
         | Inr u \<Rightarrow> para_loop complex ns text out href refs)
      else if tagname n = ''reference'' then
        (if \<not> complex then
           (case process_reference n refs of
              (Inl e, refs1) \<Rightarrow> (Inl e, refs1)
            | (Inr r, refs1) \<Rightarrow>
                (case make_href_text n refs1 of
                   (Inl e, refs2) \<Rightarrow> (Inl e, refs2)
                 | (Inr t, refs2) \<Rightarrow> para_loop complex ns (text @ [t]) out href refs2))
         else
           (case make_href n refs of
              (Inl e, refs1) \<Rightarrow> (Inl e, refs1)
            | (Inr h, refs1) \<Rightarrow>
                para_loop complex ns [] (para_close text out href) (Some h) refs1))
      else
        (case astext refs n of
           Inl e \<Rightarrow> (Inl e, refs)
         | Inr t \<Rightarrow> para_loop complex ns (text @ [t]) out href refs))"

definition convert_para :: "node \<Rightarrow> bool \<Rightarrow> string set \<Rightarrow> (error + xml) \<times> string set" where
  "convert_para para complex refs =
     para_loop complex (children para) [] (Element ''PARA'' [] None None []) None refs"

section \<open>Lists and block quotes\<close>

text \<open>\<open>convert_list_items\<close> (line 551): one \<open>ITEM\<close> for each \<open>list_item\<close>.\<close>

fun list_items_loop :: "string set \<Rightarrow> node list \<Rightarrow> error + xml list" where
  "list_items_loop refs [] = Inr []"
| "list_items_loop refs (el # els) =
     (if tagname el \<noteq> ''list_item'' then Inl AssertionError
      else (case astext refs el of
              Inl e \<Rightarrow> Inl e
            | Inr t \<Rightarrow>
                (case list_items_loop refs els of
                   Inl e \<Rightarrow> Inl e
                 | Inr items \<Rightarrow> Inr (Element ''ITEM'' [] (Some t) None [] # items))))"

definition convert_list_items :: "node \<Rightarrow> string set \<Rightarrow> error + xml" where
  "convert_list_items para refs =
     (case list_items_loop refs (children para) of
        Inl e \<Rightarrow> Inl e
      | Inr items \<Rightarrow> Inr (Element ''LIST'' [] None None items))"

text \<open>
  \<open>convert_block_quote\<close> (line 564). \<open>para[0]\<close> is read before the test on the doctest
  blocks, so a block quote without children raises \<open>IndexError\<close>.
\<close>

definition convert_block_quote :: "node \<Rightarrow> string set \<Rightarrow> error + xml" where
  "convert_block_quote para refs =
     (if tagname para \<noteq> ''block_quote'' then Inl AssertionError
      else (case children para of
              [] \<Rightarrow> Inl IndexError
            | p0 # ps \<Rightarrow>
                if tagname p0 \<in> set [''bullet_list'', ''enumerated_list''] then
                  (if length (children para) \<noteq> 1 then Inl AssertionError
                   else convert_list_items p0 refs)
                else if list_all (\<lambda>p. tagname p = ''doctest_block'') (children para) then
                  Inr (Element ''VERBATIM'' []
                         (Some (py_join [CHR 0x0A, CHR 0x0A] (map node_astext (children para))))
                         None [])
                else if tagname p0 = ''paragraph'' then
                  (if length (children para) \<noteq> 1 then Inl AssertionError
                   else (case astext refs p0 of
                           Inl e \<Rightarrow> Inl e
                         | Inr t \<Rightarrow> Inr (Element ''VERBATIM'' [] (Some t) None []))
                  )
                else Inl (ValueError ''Unexpected block_quote element'')))"

section \<open>The version store\<close>

text \<open>
  The module-level dictionary \<open>store_versions\<close> (line 963): its two lists, the set of
  titles already used and whether the key \<open>DONE\<close> is present. It is \<open>None\<close> until
  \<open>reset_stored_versions\<close> runs for the first time. \<open>globals\<close> is the state of the module.
\<close>

record store =
  versionadded :: "xml list"
  versionchanged :: "xml list"
  titles :: "string set"
  has_done :: bool

record globals =
  references :: "string set"
  store_versions :: "store option"

definition empty_store :: store where
  "empty_store = \<lparr>versionadded = [], versionchanged = [], titles = {}, has_done = False\<rparr>"

definition reset_stored_versions :: "globals \<Rightarrow> globals" where
  "reset_stored_versions g = g\<lparr>store_versions := Some empty_store\<rparr>"

definition is_para :: "node \<Rightarrow> bool" where
  "is_para n = (tagname n = ''paragraph'')"

text \<open>
  \<open>store_versions[key].append(p)\<close>. Both callers have established that \<open>key\<close> is
  \<open>versionadded\<close> or \<open>versionchanged\<close>.
\<close>

definition store_append :: "string \<Rightarrow> xml \<Rightarrow> store \<Rightarrow> store" where
  "store_append key p st =
     (if key = ''versionadded'' then st\<lparr>versionadded := versionadded st @ [p]\<rparr>
      else st\<lparr>versionchanged := versionchanged st @ [p]\<rparr>)"

text \<open>The loop over \<open>block[1:]\<close> of \<open>convert_versionwarning\<close> (line 1037).\<close>

fun versionwarning_rest ::
  "string \<Rightarrow> string set \<Rightarrow> node list \<Rightarrow> store \<Rightarrow> (error + unit) \<times> store" where
  "versionwarning_rest key refs [] st = (Inr (), st)"
| "versionwarning_rest key refs (blk # blks) st =
     (if \<not> is_para blk then (Inl (RuntimeError ''''), st)
      else (case astext refs blk of
              Inl e \<Rightarrow> (Inl e, st)
            | Inr t \<Rightarrow>
                versionwarning_rest key refs blks
                  (store_append key (Element ''PARA'' [] (Some t) None []) st)))"

text \<open>
  \<open>convert_versionwarning\<close> (line 972): the release is the first word of the first
  paragraph; a title already used is not set again; the rest of the first paragraph is the
  text unless it is the sentence on the XSPEC version. \<open>versionwarning_first\<close> is lines
  1019 to 1035, which build the \<open>PARA\<close> of the first paragraph and append it to the
  store; \<open>ts\<close> is \<open>toks[1:]\<close>.
\<close>

definition versionwarning_first :: "string \<Rightarrow> string \<Rightarrow> string list \<Rightarrow> store \<Rightarrow> store" where
  "versionwarning_first tag version ts st =
     (let lbl = (if tag = ''versionadded'' then ''Added'' else ''Changed'');
          title = lbl @ '' in CIAO '' @ version;
          out = Element ''PARA''
                  (if title \<notin> titles st then [(''title'', Some title)] else [])
                  None None [];
          st1 = st\<lparr>titles := insert title (titles st)\<rparr>;
          out1 = (case ts of
                    [] \<Rightarrow> out
                  | t1 # ts' \<Rightarrow>
                      if \<not> xsversion_warning t1 then set_text (Some t1) out else out)
      in store_append tag out1 st1)"

definition convert_versionwarning :: "node \<Rightarrow> globals \<Rightarrow> (error + unit) \<times> globals" where
  "convert_versionwarning block g =
     (case store_versions g of
        None \<Rightarrow> (Inl TypeError, g)
      | Some st \<Rightarrow>
          if has_done st then (Inl (ValueError ''Unexpected block''), g)
          else if tagname block \<noteq> ''versionadded'' \<and> tagname block \<noteq> ''versionchanged''
          then (Inl AssertionError, g)
          else if \<not> list_all is_para (children block) then (Inl AssertionError, g)
          else
            (case children block of
               [] \<Rightarrow> (Inl IndexError, g)
             | b # bs \<Rightarrow>
                 (case astext (references g) b of
                    Inl e \<Rightarrow> (Inl e, g)
                  | Inr b0 \<Rightarrow>
                      (case py_split_ws1 b0 of
                         [] \<Rightarrow> (Inl IndexError, g)
                       | t0 # ts \<Rightarrow>
                           (case convert_version_number t0 of
                              Inl e \<Rightarrow> (Inl e, g)
                            | Inr version \<Rightarrow>
                                (case versionwarning_rest (tagname block) (references g) bs
                                        (versionwarning_first (tagname block) version ts st) of
                                   (r, st3) \<Rightarrow> (r, g\<lparr>store_versions := Some st3\<rparr>)))))))"

text \<open>
  \<open>convert_comment_versionwarning\<close> (line 1048), for a directive written with one colon,
  which docutils reads as a comment. The title is always set here and is not added to the
  set of titles. \<open>comment_versionwarning_store\<close> is lines 1089 to 1100, which build the
  \<open>PARA\<close> and append it to the store; \<open>toks\<close> has one or two elements.
\<close>

definition comment_versionwarning_store ::
  "string \<Rightarrow> string \<Rightarrow> string list \<Rightarrow> store \<Rightarrow> store" where
  "comment_versionwarning_store tag version toks st =
     (let lbl = (if tag = ''versionadded'' then ''Added'' else ''Changed'');
          title = lbl @ '' in CIAO '' @ version;
          out = Element ''PARA'' [(''title'', Some title)] None None [];
          out1 = (if length toks = 2 then set_text (Some (toks ! 1)) out else out)
      in store_append tag out1 st)"

definition convert_comment_versionwarning ::
  "node \<Rightarrow> globals \<Rightarrow> (error + unit) \<times> globals" where
  "convert_comment_versionwarning block g =
     (case store_versions g of
        None \<Rightarrow> (Inl TypeError, g)
      | Some st \<Rightarrow>
          if has_done st then (Inl (ValueError ''Unexpected block''), g)
          else
            (case children block of
               [b] \<Rightarrow>
                 (case astext (references g) b of
                    Inl e \<Rightarrow> (Inl e, g)
                  | Inr astxt \<Rightarrow>
                      (let idx = py_find (CHR '':'') astxt
                       in if \<not> idx > 0 then (Inl AssertionError, g)
                          else
                            (let tag = take (nat idx) astxt
                             in if tag \<noteq> ''versionadded'' \<and> tag \<noteq> ''versionchanged''
                                then (Inl AssertionError, g)
                                else
                                  (let toks = py_split1 (CHR 0x0A) (drop (nat idx + 1) astxt)
                                   in (case convert_version_number (py_strip (toks ! 0)) of
                                         Inl e \<Rightarrow> (Inl e, g)
                                       | Inr version \<Rightarrow>
                                           (Inr (),
                                            g\<lparr>store_versions :=
                                                 Some (comment_versionwarning_store tag version
                                                         toks st)\<rparr>))))))
             | _ \<Rightarrow> (Inl AssertionError, g)))"

section \<open>Metadata\<close>

text \<open>
  \<open>merge_metadata\<close> (line 2803). A dictionary is an association list in insertion order
  (\<^const>\<open>AList.update\<close> replaces the value of a key that is present and keeps its place, as
  a Python assignment does); a value is a string or \<open>None\<close>. \<open>append_values\<close> takes the value
  \<open>xmlattrs[k]\<close> as its first argument.
\<close>

type_synonym attrs = "(string \<times> string option) list"

definition append_values :: "string \<Rightarrow> string \<Rightarrow> string" where
  "append_values x v = py_join '' '' (sorted_set (py_split_ws x @ py_split_ws v))"

fun merge_loop :: "attrs \<Rightarrow> attrs \<Rightarrow> error + attrs" where
  "merge_loop [] xmlattrs = Inr xmlattrs"
| "merge_loop ((k, v) # items) xmlattrs =
     (case map_of xmlattrs k of
        None \<Rightarrow> Inl AssertionError
      | Some x \<Rightarrow>
          if k \<in> set [''seealsogroups'', ''displayseealsogroups'', ''refkeywords''] then
            (case x of
               None \<Rightarrow> Inl AttributeError
             | Some xs \<Rightarrow>
                 (case v of
                    None \<Rightarrow> Inl AttributeError
                  | Some vs \<Rightarrow>
                      merge_loop items (AList.update k (Some (append_values xs vs)) xmlattrs)))
          else merge_loop items (AList.update k v xmlattrs))"

definition merge_metadata :: "attrs \<Rightarrow> attrs option \<Rightarrow> error + attrs" where
  "merge_metadata xmlattrs metadata =
     (case metadata of None \<Rightarrow> Inr xmlattrs | Some items \<Rightarrow> merge_loop items xmlattrs)"

section \<open>Conversion of a document\<close>

text \<open>
  \<open>convert_docutils\<close> (line 2847) in three parts. Lines 2908 to 2989 call the section
  extractors \<open>find_syntax\<close>, \<open>find_synopsis\<close>, \<open>find_desc\<close>, \<open>find_fieldlist\<close>,
  \<open>find_warning\<close>, \<open>find_seealso\<close>, \<open>extract_params\<close>, \<open>find_notes\<close>, \<open>find_references\<close>,
  \<open>find_examples\<close> and \<open>augment_examples\<close> one after the other; of their bodies only
  that of \<open>find_synopsis\<close> is embedded, and the whole chain is the parameter \<open>segment\<close>:
  from the name, the nodes of the document, the signature and the synonyms it gives the
  local variables of \<open>convert_docutils\<close> at line 2991 (the record \<open>segments\<close>), reading and
  changing the module state on the way. \<open>find_context\<close> and the result of \<open>mkmodels\<close>
  depend on the Python object of the symbol and are parameters too. Everything else is
  the code of the source.
  A Python set of keywords is the list of its elements, \<open>None\<close> where \<open>find_synopsis\<close>
  returns the empty string instead of a set.
\<close>

record segments =
  seg_syntax :: "xml option"
  seg_synopsis :: "xml option"
  seg_refkeywords :: "string list option"
  seg_desc :: "xml option"
  seg_params :: "xml option"
  seg_warnings :: "xml option"
  seg_seealso :: "string list option"
  seg_notes :: "xml option"
  seg_notes2 :: "xml option"
  seg_refs :: "xml option"
  seg_examples :: "xml option"
  seg_nodes :: "node list"

record env =
  segment ::
    "string \<Rightarrow> node list \<Rightarrow> string option \<Rightarrow> string list option \<Rightarrow> globals
       \<Rightarrow> (error + segments) \<times> globals"
  mkmodels :: string
  find_context :: "string \<Rightarrow> string"

datatype outcome = Trailing "node list" | Document xml

text \<open>
  \<open>find_synopsis\<close> (line 1397) with its local function \<open>clean\<close>. The text of the synopsis
  is what the library's \<open>node.astext()\<close> returns for the first paragraph (line 1422):
  neither \<open>astext\<close> of line 209 nor \<open>process_target\<close> is called, and the registry is not
  read. A node is an instance of \<open>nodes.paragraph\<close> when its tag is \<open>paragraph\<close>. The set
  of keywords is the list of its elements, as in \<open>segments\<close>.
\<close>

definition clean_step :: "char \<Rightarrow> string \<Rightarrow> string" where
  "clean_step c v =
     (let v1 = (if v \<noteq> [] \<and> last v = c then butlast v else v)
      in if v1 \<noteq> [] \<and> hd v1 = c then tl v1 else v1)"

definition clean :: "string \<Rightarrow> string" where
  "clean v = fold clean_step [CHR '','', CHR ''.'', CHR '':'', CHR 0x22, CHR 0x27] v"

definition find_synopsis ::
  "node list \<Rightarrow> error + xml option \<times> string list option \<times> node list" where
  "find_synopsis indoc =
     (case indoc of
        [] \<Rightarrow> Inl IndexError
      | node # rest \<Rightarrow>
          if tagname node \<noteq> ''paragraph'' then Inr (None, None, indoc)
          else
            (let syn = py_strip (node_astext node)
             in Inr (Some (Element ''SYNOPSIS'' [] (Some syn) None []),
                     Some (map clean (py_split_ws (lower syn))),
                     rest)))"

text \<open>\<open>sub in s\<close> for strings (\<open>s.find(sub) != -1\<close>).\<close>

definition contains :: "string \<Rightarrow> string \<Rightarrow> bool" where
  "contains s sub = list_ex (\<lambda>i. startswith (drop i s) sub) [0 ..< Suc (length s)]"

text \<open>\<open>create_seealso\<close> (line 2613); \<open>dsg\<close> is the result of its local \<open>mkmodels\<close>.\<close>

definition create_seealso :: "string \<Rightarrow> string list option \<Rightarrow> string \<Rightarrow> string \<times> string" where
  "create_seealso name seealso dsg =
     (case seealso of
        None \<Rightarrow> ('''', dsg)
      | Some ss \<Rightarrow>
          (let nlower = lower name;
               pairs = map (\<lambda>s. if nlower < lower s then nlower @ lower s
                                  else lower s @ nlower) ss
           in (py_join '' '' (sort pairs), dsg)))"

text \<open>
  Lines 3009 to 3055: the block \<open>Changes in CIAO\<close>. \<open>added_loop\<close> is the loop over
  \<open>store_versions['versionadded']\<close>; the elements of the block are the elements of the
  store, so the text set for the two Voigt models shows in both, and the list returned is
  what the store holds when the loop ends or raises.
\<close>

definition voigt_text :: string where
  "voigt_text = ''The pseudovoigt1d and voigt1d models were added in CIAO 4.13 ''
     @ ''and replace the absorptionvoigt and emissionvoigt models.''"

fun added_loop :: "string \<Rightarrow> xml list \<Rightarrow> error option \<times> xml list" where
  "added_loop name [] = (None, [])"
| "added_loop name (p # ps) =
     (if name \<in> set [''pseudovoigt1d'', ''voigt1d''] then
        (if el_text p \<noteq> None then (Some AssertionError, p # ps)
         else (case added_loop name ps of
                 (r, qs) \<Rightarrow> (r, set_text (Some voigt_text) p # qs)))
      else (case added_loop name ps of (r, qs) \<Rightarrow> (r, p # qs)))"

definition make_versioninfo :: "string \<Rightarrow> store \<Rightarrow> (error + xml option) \<times> store" where
  "make_versioninfo name st =
     (if has_done st then (Inl AssertionError, st)
      else
        (let skippy1 = list_ex (\<lambda>p. el_get p ''title'' = Some ''Changed in CIAO 4.14'')
                         (versionchanged st);
             skippy2 = list_ex (\<lambda>p. el_get p ''title'' = Some ''New in CIAO 4.14'')
                         (versionadded st)
         in if skippy1 \<and> skippy2 \<and> name \<notin> set [''xsagnslim'', ''xsbwcycl'', ''xszkerrbb'']
            then (Inl (RuntimeError ''problem''), st)
            else
              (let st1 = (if skippy1 \<and> skippy2 then st\<lparr>versionchanged := []\<rparr> else st)
               in (case added_loop name (versionadded st1) of
                     (Some e, ps) \<Rightarrow> (Inl e, st1\<lparr>versionadded := ps\<rparr>)
                   | (None, ps) \<Rightarrow>
                       (let kids = versionchanged st1 @ ps
                        in (Inr (if length kids = 0 then None
                                 else Some (Element ''ADESC''
                                              [(''title'', Some ''Changes in CIAO'')]
                                              None None kids)),
                            st1\<lparr>versionadded := ps, has_done := True\<rparr>))))))"

text \<open>Lines 3057 to 3162: the output tree.\<close>

definition xspec_block :: xml where
  "xspec_block =
     Element ''ADESC'' [(''title'', Some ''XSPEC version'')] None None
       [Element ''PARA'' []
          (Some (''CIAO 4.18'' @ '' comes with support for version '' @ ''12.14.0k''
                 @ '' of the XSPEC models. This can be '' @ ''checked with the following:''))
          None [],
        Element ''PARA'' [] None None
          [Element ''SYNTAX'' [] None None
             [Element ''LINE'' []
                (Some (''% python -c '' @ [CHR 0x27] @ ''from sherpa.astro import xspec; ''
                       @ ''print(xspec.get_xsversion())'' @ [CHR 0x27]))
                None [],
              Element ''LINE'' [] (Some ''12.14.0k'') None []]]]"

definition bugs_block :: xml where
  "bugs_block =
     Element ''BUGS'' [] None None
       [Element ''PARA'' [] (Some ''See the '') None
          [Element ''HREF'' [(''link'', Some ''https://cxc.harvard.edu/sherpa/bugs/'')]
             (Some ''bugs pages on the Sherpa website'')
             (Some '' for an up-to-date listing of known bugs.'') []]]"

definition dict_get :: "attrs \<Rightarrow> string \<Rightarrow> string option" where
  "dict_get d k = (case map_of d k of None \<Rightarrow> None | Some v \<Rightarrow> v)"

definition assemble ::
  "env \<Rightarrow> string \<Rightarrow> attrs option \<Rightarrow> string list option \<Rightarrow> string \<Rightarrow> segments
     \<Rightarrow> string \<times> string \<Rightarrow> xml option \<Rightarrow> error + outcome" where
  "assemble E name metadata synonyms dtd s tags versioninfo =
     (if name = ''xszkerrbb'' \<and> seg_refkeywords s = None then Inl AttributeError
      else
        (let rootname = (if dtd = ''ahelp'' then ''cxchelptopics'' else ''cxcdocumentationpage'');
             kw0 = (case seg_refkeywords s of None \<Rightarrow> [] | Some ks \<Rightarrow> ks);
             kw1 = sorted_set (if name = ''xszkerrbb'' then kw0 @ [''kerrbb'', ''xskerrbb'']
                               else kw0);
             kw2 = (if CHR ''_'' \<in> set name then kw1 @ py_split (CHR ''_'') name else kw1)
         in (case merge_metadata
                    [(''pkg'', Some ''sherpa''),
                     (''key'', Some name),
                     (''refkeywords'', Some (py_join '' '' kw2)),
                     (''seealsogroups'', Some (fst tags)),
                     (''displayseealsogroups'', Some (snd tags)),
                     (''context'', None)]
                    metadata of
               Inl e \<Rightarrow> Inl e
             | Inr x0 \<Rightarrow>
                 (let x1 = (if dict_get x0 ''context'' = None
                            then AList.update ''context'' (Some (find_context E name)) x0
                            else x0)
                  in (case (case synonyms of
                              None \<Rightarrow> Inr x1
                            | Some syns \<Rightarrow>
                                (case dict_get x1 ''refkeywords'' of
                                   None \<Rightarrow> Inl TypeError
                                 | Some r \<Rightarrow>
                                     Inr (AList.update ''refkeywords''
                                            (Some (py_join '' '' syns @ '' '' @ r)) x1))) of
                        Inl e \<Rightarrow> Inl e
                      | Inr xmlattrs \<Rightarrow>
                          Inr (Document
                            (Element rootname [] None None
                               [Element ''ENTRY'' xmlattrs None None
                                  (List.map_filter id
                                     [seg_synopsis s, seg_syntax s, seg_desc s, seg_examples s,
                                      seg_params s, seg_warnings s, seg_notes s, seg_notes2 s,
                                      seg_refs s, versioninfo]
                                   @ (if contains name ''xs'' then [xspec_block] else [])
                                   @ [bugs_block,
                                      Element ''LASTMODIFIED'' [] (Some ''December 2025'')
                                        None []])])))))))"

definition convert_docutils ::
  "env \<Rightarrow> string \<Rightarrow> node list \<Rightarrow> string option \<Rightarrow> attrs option \<Rightarrow> string list option
     \<Rightarrow> string \<Rightarrow> globals \<Rightarrow> (error + outcome) \<times> globals" where
  "convert_docutils E name doc sig metadata synonyms dtd g =
     (if dtd \<notin> set [''ahelp'', ''sxml''] then (Inl (ValueError ''Unrecognized dtd value''), g)
      else if synonyms = Some [] then (Inl AssertionError, g)
      else
        (case segment E name doc sig synonyms (reset_stored_versions g) of
           (Inl e, g1) \<Rightarrow> (Inl e, g1)
         | (Inr s, g1) \<Rightarrow>
             if seg_nodes s \<noteq> [] then (Inr (Trailing (seg_nodes s)), g1)
             else
               (case store_versions g1 of
                  None \<Rightarrow> (Inl AttributeError, g1)
                | Some st \<Rightarrow>
                    (case make_versioninfo name st of
                       (Inl e, st1) \<Rightarrow> (Inl e, g1\<lparr>store_versions := Some st1\<rparr>)
                     | (Inr versioninfo, st1) \<Rightarrow>
                         (assemble E name metadata synonyms dtd s
                            (create_seealso name (seg_seealso s) (mkmodels E)) versioninfo,
                          g1\<lparr>store_versions := Some st1\<rparr>)))))"

section \<open>Notions used in the statements\<close>

text \<open>
  The names that \<open>process_reference\<close> adds to the registry for a list of nodes rendered
  in order, and the \<open>target\<close> nodes that \<open>astext\<close> reaches in a node: the node itself
  when it is a target, the second child of a footnote, the children of a paragraph, list
  item or enumerated list, and nothing below any other node, whose text comes from the
  library.
\<close>

fun recorded_names :: "node list \<Rightarrow> string set" where
  "recorded_names [] = {}"
| "recorded_names (n # ns) =
     (if tagname n = ''reference''
      then (case get_name n of None \<Rightarrow> {} | Some nm \<Rightarrow> {lower nm})
      else {}) \<union> recorded_names ns"

fun rendered_targets :: "node \<Rightarrow> node list" where
  "rendered_targets (Node tg nm nms uri tx cs) =
     (if tg = ''target'' then [Node tg nm nms uri tx cs]
      else if tg \<in> set [''system_message'', ''#text'', ''reference'', ''footnote_reference'',
                          ''title_reference'', ''literal'', ''emphasis'', ''strong'',
                          ''citation_reference'']
      then []
      else if tg = ''footnote'' then
        (case cs of
           c0 # c1 # r \<Rightarrow>
             if tagname c1 = ''paragraph'' \<or> tagname c1 = ''enumerated_list''
             then rendered_targets c1 else []
         | _ \<Rightarrow> [])
      else concat (map rendered_targets cs))"

text \<open>Sample input: a paragraph holding a named reference followed by its target.\<close>

definition sample_reference :: node where
  "sample_reference = Node ''reference'' (Some ''Foo'') [] (Some ''http://x'') ''Foo site'' []"

definition sample_target :: node where
  "sample_target = Node ''target'' None [''foo''] (Some ''http://x'') [] []"

definition sample_para :: node where
  "sample_para = Node ''paragraph'' None [] None ''Foo site'' [sample_reference, sample_target]"

text \<open>Sample input: targets with two names and with none.\<close>

definition two_names_target :: node where
  "two_names_target = Node ''target'' None [''a'', ''b''] None [] []"

definition no_names_target :: node where
  "no_names_target = Node ''target'' None [] None [] []"

text \<open>
  Sample input: a block quote of three doctest blocks, and a block quote without
  children.
\<close>

definition doctest :: "string \<Rightarrow> node" where
  "doctest s = Node ''doctest_block'' None [] None s [Node ''#text'' None [] None s []]"

definition three_doctests :: node where
  "three_doctests =
     Node ''block_quote'' None [] None ''a'' [doctest ''a'', doctest ''b'', doctest ''c'']"

definition empty_block_quote :: node where
  "empty_block_quote = Node ''block_quote'' None [] None [] []"

text \<open>
  The paragraph as the specification words it: the children are cut at the references
  into a leading run and, for each reference, the run that follows it; the text of the
  leading run is the text of the \<open>PARA\<close>, each reference is an \<open>HREF\<close> with the display
  text and the link, and the text of the run after it is its tail. \<open>render_run\<close> is the
  text of a run (a target is checked and gives no text); the registry takes the name of a
  reference before the run behind it is rendered.
\<close>

fun para_runs :: "node list \<Rightarrow> node list \<times> (node \<times> node list) list" where
  "para_runs [] = ([], [])"
| "para_runs (n # ns) =
     (case para_runs ns of
        (run, rest) \<Rightarrow>
          if tagname n = ''reference'' then ([], (n, run) # rest) else (n # run, rest))"

fun render_run :: "string set \<Rightarrow> node list \<Rightarrow> error + string list" where
  "render_run refs [] = Inr []"
| "render_run refs (n # ns) =
     (if tagname n = ''target'' then
        (case process_target n refs of Inl e \<Rightarrow> Inl e | Inr u \<Rightarrow> render_run refs ns)
      else
        (case astext refs n of
           Inl e \<Rightarrow> Inl e
         | Inr t \<Rightarrow> (case render_run refs ns of Inl e \<Rightarrow> Inl e | Inr ts \<Rightarrow> Inr (t # ts))))"

fun flat_hrefs :: "string set \<Rightarrow> (node \<times> node list) list \<Rightarrow> (error + xml list) \<times> string set" where
  "flat_hrefs refs [] = (Inr [], refs)"
| "flat_hrefs refs ((r, run) # rest) =
     (let refs1 = (case get_name r of None \<Rightarrow> refs | Some nm \<Rightarrow> insert (lower nm) refs)
      in (case render_run refs1 run of
            Inl e \<Rightarrow> (Inl e, refs1)
          | Inr ts \<Rightarrow>
              (case flat_hrefs refs1 rest of
                 (Inl e, refs2) \<Rightarrow> (Inl e, refs2)
               | (Inr hs, refs2) \<Rightarrow>
                   (Inr (Element ''HREF'' [(''link'', get_refuri r)] (Some (node_astext r))
                           (Some (py_join [CHR 0x0A] ts)) [] # hs),
                    refs2))))"

definition flat_para :: "string set \<Rightarrow> node list \<Rightarrow> (error + xml) \<times> string set" where
  "flat_para refs cs =
     (case para_runs cs of
        (run0, pairs) \<Rightarrow>
          (case render_run refs run0 of
             Inl e \<Rightarrow> (Inl e, refs)
           | Inr ts \<Rightarrow>
               (case flat_hrefs refs pairs of
                  (Inl e, refs') \<Rightarrow> (Inl e, refs')
                | (Inr hs, refs') \<Rightarrow>
                    (Inr (Element ''PARA'' [] (Some (py_join [CHR 0x0A] ts)) None hs), refs'))))"

text \<open>\<open>add_children\<close> appends finished children to an element.\<close>

definition add_children :: "xml list \<Rightarrow> xml \<Rightarrow> xml" where
  "add_children hs e =
     Element (el_tag e) (el_attrib e) (el_text e) (el_tail e) (el_children e @ hs)"

text \<open>
  Metadata: a token is a non-empty string without whitespace; \<open>multi_keys\<close> are the keys
  that \<open>merge_metadata\<close> merges instead of replacing. \<open>mergeable x items\<close> says that
  \<open>items\<close> can be merged into \<open>x\<close> without an exception: every key of \<open>items\<close> is a key
  of \<open>x\<close>, and the values of the multi-valued keys are strings on both sides.
\<close>

definition is_token :: "string \<Rightarrow> bool" where
  "is_token t = (t \<noteq> [] \<and> list_all (\<lambda>c. \<not> py_isspace c) t)"

definition multi_keys :: "string list" where
  "multi_keys = [''seealsogroups'', ''displayseealsogroups'', ''refkeywords'']"

definition mergeable :: "attrs \<Rightarrow> attrs \<Rightarrow> bool" where
  "mergeable x items =
     (list_all (\<lambda>(k, v). map_of x k \<noteq> None \<and> (k \<in> set multi_keys \<longrightarrow> v \<noteq> None)) items
      \<and> list_all (\<lambda>k. map_of x k \<noteq> Some None) multi_keys)"

text \<open>Sample input: the attributes of a symbol and the metadata of its help file.\<close>

definition sample_attrs :: attrs where
  "sample_attrs =
     [(''pkg'', Some ''sherpa''), (''key'', Some ''fit''), (''refkeywords'', Some ''perform a fit''),
      (''seealsogroups'', Some ''''), (''displayseealsogroups'', Some ''''), (''context'', None)]"

definition sample_metadata :: attrs where
  "sample_metadata = [(''refkeywords'', Some ''fit  model''), (''context'', Some ''fitting'')]"

text \<open>
  The version entries in recording order. \<open>recorded entries st\<close> holds when the store
  \<open>st\<close> is what a run of successful calls of \<open>convert_versionwarning\<close> and
  \<open>convert_comment_versionwarning\<close> leaves, starting from the store that
  \<open>reset_stored_versions\<close> sets, whatever the registry is at each call; \<open>entries\<close> lists
  the \<open>PARA\<close> elements in the order in which the calls appended them, each with the key of
  the list it went to (\<open>new_entries\<close> are the elements one call appended). \<open>entries_of\<close>
  selects the entries of one key, \<open>voigt_patch\<close> is the text that lines 3042 to 3045 set
  on the added entries of the two Voigt models, \<open>ok_title\<close> says that an entry does not
  carry the title tested at line 3026, and \<open>extends key st st' new\<close> that \<open>st'\<close> is \<open>st\<close>
  with \<open>new\<close> appended to the list of \<open>key\<close>.
\<close>

definition new_entries :: "store \<Rightarrow> store \<Rightarrow> (string \<times> xml) list" where
  "new_entries st st' =
     map (Pair ''versionchanged'') (drop (length (versionchanged st)) (versionchanged st'))
     @ map (Pair ''versionadded'') (drop (length (versionadded st)) (versionadded st'))"

inductive recorded :: "(string \<times> xml) list \<Rightarrow> store \<Rightarrow> bool" where
  fresh: "recorded [] empty_store"
| versionwarning:
    "recorded entries st \<Longrightarrow> store_versions g = Some st \<Longrightarrow>
     convert_versionwarning block g = (Inr (), g') \<Longrightarrow> store_versions g' = Some st' \<Longrightarrow>
       recorded (entries @ new_entries st st') st'"
| comment_versionwarning:
    "recorded entries st \<Longrightarrow> store_versions g = Some st \<Longrightarrow>
     convert_comment_versionwarning block g = (Inr (), g') \<Longrightarrow> store_versions g' = Some st' \<Longrightarrow>
       recorded (entries @ new_entries st st') st'"

definition entries_of :: "string \<Rightarrow> (string \<times> xml) list \<Rightarrow> xml list" where
  "entries_of key entries = map snd (filter (\<lambda>e. fst e = key) entries)"

definition voigt_patch :: "string \<Rightarrow> xml \<Rightarrow> xml" where
  "voigt_patch name p =
     (if name \<in> set [''pseudovoigt1d'', ''voigt1d''] then set_text (Some voigt_text) p else p)"

definition ok_title :: "xml \<Rightarrow> bool" where
  "ok_title p = (el_get p ''title'' \<noteq> Some ''New in CIAO 4.14'')"

definition extends :: "string \<Rightarrow> store \<Rightarrow> store \<Rightarrow> xml list \<Rightarrow> bool" where
  "extends key st st' new =
     (has_done st' = has_done st \<and>
      (if key = ''versionadded''
       then versionadded st' = versionadded st @ new \<and> versionchanged st' = versionchanged st
       else versionchanged st' = versionchanged st @ new \<and> versionadded st' = versionadded st))"

text \<open>
  Sample input: a \<open>versionchanged\<close> block for 4.16.0 with a sentence, a \<open>versionadded\<close>
  block for 4.12.0, and the stores and entries they give; the same for 4.14.0.
\<close>

definition text_node :: "string \<Rightarrow> node" where
  "text_node s = Node ''#text'' None [] None s []"

definition version_block :: "string \<Rightarrow> string \<Rightarrow> node" where
  "version_block tag s =
     Node tag None [] None s [Node ''paragraph'' None [] None s [text_node s]]"

definition changed_416 :: node where
  "changed_416 = version_block ''versionchanged'' ''4.16.0 The default changed.''"

definition added_412 :: node where
  "added_412 = version_block ''versionadded'' ''4.12.0''"

definition fresh_globals :: globals where
  "fresh_globals = \<lparr>references = {}, store_versions = Some empty_store\<rparr>"

definition para_changed_416 :: xml where
  "para_changed_416 =
     Element ''PARA'' [(''title'', Some ''Changed in CIAO 4.16'')]
       (Some ''The default changed.'') None []"

definition para_added_412 :: xml where
  "para_added_412 = Element ''PARA'' [(''title'', Some ''Added in CIAO 4.12'')] None None []"

definition store_1 :: store where
  "store_1 = \<lparr>versionadded = [], versionchanged = [para_changed_416],
               titles = {''Changed in CIAO 4.16''}, has_done = False\<rparr>"

definition store_2 :: store where
  "store_2 = \<lparr>versionadded = [para_added_412], versionchanged = [para_changed_416],
               titles = {''Added in CIAO 4.12'', ''Changed in CIAO 4.16''}, has_done = False\<rparr>"

definition changed_414 :: node where
  "changed_414 = version_block ''versionchanged'' ''4.14.0 The default changed.''"

definition added_414 :: node where
  "added_414 = version_block ''versionadded'' ''4.14.0''"

definition para_changed_414 :: xml where
  "para_changed_414 =
     Element ''PARA'' [(''title'', Some ''Changed in CIAO 4.14'')]
       (Some ''The default changed.'') None []"

definition para_added_414 :: xml where
  "para_added_414 = Element ''PARA'' [(''title'', Some ''Added in CIAO 4.14'')] None None []"

definition store_414 :: store where
  "store_414 = \<lparr>versionadded = [para_added_414], versionchanged = [para_changed_414],
                 titles = {''Added in CIAO 4.14'', ''Changed in CIAO 4.14''}, has_done = False\<rparr>"

text \<open>
  Sample input: the result of the extractor chain on a document in which no extractor
  finds its section, so that every section is absent and every node is left over (the
  source's chain does this on a document that is one rubric titled \<open>Other\<close>), and a
  paragraph that holds only a target.
\<close>

definition unmatched :: "node list \<Rightarrow> segments" where
  "unmatched doc =
     \<lparr>seg_syntax = None, seg_synopsis = None, seg_refkeywords = None, seg_desc = None,
      seg_params = None, seg_warnings = None, seg_seealso = None, seg_notes = None,
      seg_notes2 = None, seg_refs = None, seg_examples = None, seg_nodes = doc\<rparr>"

definition unmatched_env :: env where
  "unmatched_env =
     \<lparr>segment = (\<lambda>name doc sig synonyms g. (Inr (unmatched doc), g)),
      mkmodels = [],
      find_context = (\<lambda>name. ''sherpaish'')\<rparr>"

definition other_rubric :: node where
  "other_rubric = Node ''rubric'' None [] None ''Other'' [text_node ''Other'']"

definition target_only_para :: node where
  "target_only_para = Node ''paragraph'' None [] None [] [sample_target]"

text \<open>
  Sample input: a document that is the one paragraph \<open>The foo model.\<close>, in which \<open>foo\<close> is
  an inline target that no reference names, converted for the symbol \<open>fit\<close> without a
  signature and without its Python object. On this document \<open>find_syntax\<close> returns no
  syntax and all the nodes (the text of the paragraph does not start with \<open>fit(\<close>),
  \<open>find_synopsis\<close> takes the paragraph, and every extractor after it returns \<open>None\<close> for
  the empty list that is left; \<open>synopsis_env\<close> is that chain.
\<close>

definition inline_target :: node where
  "inline_target = Node ''target'' None [''foo''] None ''foo'' [text_node ''foo'']"

definition synopsis_para :: node where
  "synopsis_para =
     Node ''paragraph'' None [] None ''The foo model.''
       [text_node ''The '', inline_target, text_node '' model.'']"

definition synopsis_env :: env where
  "synopsis_env =
     \<lparr>segment = (\<lambda>name doc sig synonyms g.
         (case find_synopsis doc of
            Inl e \<Rightarrow> (Inl e, g)
          | Inr (synopsis, refkeywords, nodes) \<Rightarrow>
              (Inr \<lparr>seg_syntax = None, seg_synopsis = synopsis,
                    seg_refkeywords = refkeywords, seg_desc = None, seg_params = None,
                    seg_warnings = None, seg_seealso = None, seg_notes = None,
                    seg_notes2 = None, seg_refs = None, seg_examples = None,
                    seg_nodes = nodes\<rparr>, g))),
      mkmodels = [],
      find_context = (\<lambda>name. ''sherpaish'')\<rparr>"

section \<open>Properties\<close>

subsection \<open>Release numbers\<close>

lemma py_split_no_sep: "c \<notin> set s \<Longrightarrow> py_split c s = [s]"
  by (induction s) auto

lemma py_split_append:
  "c \<notin> set s \<Longrightarrow> py_split c (s @ c # r) = s # py_split c r"
  by (induction s) auto

text \<open>
  C10. An internal version \<open>4.N.0\<close> (three dot-separated tokens, the first \<open>4\<close>, the last
  \<open>0\<close>) translates to \<open>4.N\<close> whatever \<open>N\<close> is, since the trailing-zero rule is tested before
  every release shift: \<open>4.17.0\<close> gives \<open>4.17\<close>, while \<open>4.17.1\<close> gives \<open>4.18\<close>.
\<close>

theorem convert_version_number_drops_zero:
  "CHR ''.'' \<notin> set n \<Longrightarrow>
     convert_version_number (''4.'' @ n @ ''.0'') = Inr (''4.'' @ n)
     \<and> convert_version_number ''4.17.0'' = Inr ''4.17''
     \<and> convert_version_number ''4.17.1'' = Inr ''4.18''"
proof (intro conjI)
  assume n: "CHR ''.'' \<notin> set n"
  have "py_split (CHR ''.'') (''4.'' @ n @ ''.0'') = [''4'', n, ''0'']"
    using py_split_append [OF n, of "''0''"] by simp
  then show "convert_version_number (''4.'' @ n @ ''.0'') = Inr (''4.'' @ n)"
    by (simp add: convert_version_number_def)
next
  show "convert_version_number ''4.17.0'' = Inr ''4.17''"
    by (simp add: convert_version_number_def)
next
  show "convert_version_number ''4.17.1'' = Inr ''4.18''"
    by (simp add: convert_version_number_def startswith_def)
qed

theorem convert_version_number_drops_zero_witness:
  "CHR ''.'' \<notin> set ''13'' \<and> convert_version_number ''4.13.0'' = Inr ''4.13''"
  using convert_version_number_drops_zero [of "''13''"] by simp

subsection \<open>Targets and the registry\<close>

lemma process_target_ok:
  "process_target n refs = Inr u \<Longrightarrow> \<exists>nm. get_names n = [nm] \<and> lower nm \<in> refs"
  by (auto simp: process_target_def split: if_splits list.splits)

lemma astext_target:
  "astext refs (Node ''target'' nm nms uri tx cs) =
     (case process_target (Node ''target'' nm nms uri tx cs) refs of
        Inl e \<Rightarrow> Inl e | Inr u \<Rightarrow> Inr [])"
  by simp

lemma astext_container:
  "tg \<in> {''paragraph'', ''list_item'', ''enumerated_list''} \<Longrightarrow>
   astext refs (Node tg nm nms uri tx cs) =
     (case astext_each refs cs of Inl e \<Rightarrow> Inl e | Inr out \<Rightarrow> Inr (py_join '' '' out))"
  by (elim insertE emptyE) simp_all

lemma astext_footnote:
  "astext refs (Node ''footnote'' nm nms uri tx cs) =
     (case cs of
           [] \<Rightarrow> Inl IndexError
         | c0 # r \<Rightarrow>
             if tagname c0 \<noteq> ''label'' then Inl AssertionError
             else (case r of
                     [] \<Rightarrow> Inl IndexError
                   | c1 # r' \<Rightarrow>
                       if tagname c1 = ''paragraph'' \<or> tagname c1 = ''enumerated_list'' then
                         (case astext refs c1 of
                            Inl e \<Rightarrow> Inl e
                          | Inr cts \<Rightarrow> Inr (''['' @ node_astext c0 @ '']'' @ '' '' @ cts))
                       else Inl (ValueError ''Unexpected node'')))"
  by simp

lemma astext_other:
  "tg \<notin> {''system_message'', ''#text'', ''reference'', ''footnote_reference'',
           ''title_reference'', ''literal'', ''emphasis'', ''strong'',
           ''citation_reference'', ''target'', ''footnote'', ''paragraph'', ''list_item'',
           ''enumerated_list''} \<Longrightarrow>
   astext refs (Node tg nm nms uri tx cs) = Inl AssertionError"
  by simp

lemma rendered_targets_container:
  "tg \<in> {''paragraph'', ''list_item'', ''enumerated_list''} \<Longrightarrow>
   rendered_targets (Node tg nm nms uri tx cs) = concat (map rendered_targets cs)"
  by auto

lemma rendered_targets_leaf:
  "tg \<in> {''system_message'', ''#text'', ''reference'', ''footnote_reference'',
           ''title_reference'', ''literal'', ''emphasis'', ''strong'',
           ''citation_reference''} \<Longrightarrow>
   rendered_targets (Node tg nm nms uri tx cs) = []"
  by auto

lemma rendered_targets_footnote:
  "rendered_targets (Node ''footnote'' nm nms uri tx cs) =
        (case cs of
           c0 # c1 # r \<Rightarrow>
             if tagname c1 = ''paragraph'' \<or> tagname c1 = ''enumerated_list''
             then rendered_targets c1 else []
         | _ \<Rightarrow> [])"
  by simp

lemma rendered_targets_target:
  "rendered_targets (Node ''target'' nm nms uri tx cs) = [Node ''target'' nm nms uri tx cs]"
  by simp

lemma astext_targets:
  "astext refs n = Inr t \<Longrightarrow> m \<in> set (rendered_targets n) \<Longrightarrow>
     \<exists>nm. get_names m = [nm] \<and> lower nm \<in> refs"
  "astext_each refs ns = Inr ts \<Longrightarrow> n' \<in> set ns \<Longrightarrow> m \<in> set (rendered_targets n') \<Longrightarrow>
     \<exists>nm. get_names m = [nm] \<and> lower nm \<in> refs"
proof (induct refs n and refs ns arbitrary: t m and ts n' m rule: astext_astext_each.induct)
  case (1 refs tg nm nms uri tx cs)
  define isleaf where "isleaf \<longleftrightarrow>
     tg \<in> {''system_message'', ''#text'', ''reference'', ''footnote_reference'',
           ''title_reference'', ''literal'', ''emphasis'', ''strong'',
           ''citation_reference''}"
  define iscont where "iscont \<longleftrightarrow> tg \<in> {''paragraph'', ''list_item'', ''enumerated_list''}"
  define istarget where "istarget \<longleftrightarrow> tg = ''target''"
  define isfoot where "isfoot \<longleftrightarrow> tg = ''footnote''"
  have "istarget \<or> isfoot \<or> iscont \<or> isleaf
          \<or> (\<not> istarget \<and> \<not> isfoot \<and> \<not> iscont \<and> \<not> isleaf)"
    by blast
  then consider (target) "tg = ''target''" | (footnote) "tg = ''footnote''"
    | (container) "tg \<in> {''paragraph'', ''list_item'', ''enumerated_list''}"
    | (leaf) "tg \<in> {''system_message'', ''#text'', ''reference'', ''footnote_reference'',
           ''title_reference'', ''literal'', ''emphasis'', ''strong'',
           ''citation_reference''}"
    | (other) "tg \<notin> {''system_message'', ''#text'', ''reference'', ''footnote_reference'',
           ''title_reference'', ''literal'', ''emphasis'', ''strong'',
           ''citation_reference'', ''target'', ''footnote'', ''paragraph'', ''list_item'',
           ''enumerated_list''}"
    unfolding isleaf_def iscont_def istarget_def isfoot_def by (elim disjE conjE) simp_all
  then show ?case
  proof cases
    case target
    with "1.prems" show ?thesis
      by (auto split: sum.splits dest!: process_target_ok)
  next
    case footnote
    from "1.prems" footnote obtain c0 c1 r cts where
      cs: "cs = c0 # c1 # r" and lab: "tagname c0 = ''label''"
      and c1: "tagname c1 = ''paragraph'' \<or> tagname c1 = ''enumerated_list''"
      and a: "astext refs c1 = Inr cts" and m: "m \<in> set (rendered_targets c1)"
      by (auto split: list.splits if_splits sum.splits)
    show ?thesis
      by (rule "1.hyps"(1) [OF _ _ _ _ _ _ _ _ a m]) (use footnote cs lab c1 in simp_all)
  next
    case container
    with "1.prems" obtain out where a: "astext_each refs cs = Inr out"
      and m: "m \<in> set (concat (map rendered_targets cs))"
      by (auto simp del: astext.simps rendered_targets.simps
               simp add: astext_container rendered_targets_container split: sum.splits)
    from m obtain c where c: "c \<in> set cs" "m \<in> set (rendered_targets c)" by auto
    have ne: "tg \<noteq> ''system_message''" "tg \<noteq> ''#text''" "tg \<noteq> ''reference''"
      "tg \<noteq> ''footnote''" "tg \<noteq> ''footnote_reference''" "tg \<noteq> ''title_reference''"
      "tg \<noteq> ''literal''" "tg \<noteq> ''emphasis''" "tg \<noteq> ''strong''" "tg \<noteq> ''target''"
      "tg \<noteq> ''citation_reference''"
      "\<not> tg \<notin> set [''paragraph'', ''list_item'', ''enumerated_list'']"
      using container by (elim insertE emptyE; simp)+
    show ?thesis
      by (rule "1.hyps"(2) [OF ne a c])
  next
    case leaf
    with "1.prems"(2) show ?thesis
      by (simp del: rendered_targets.simps add: rendered_targets_leaf)
  next
    case other
    with "1.prems"(1) show ?thesis
      by (simp del: astext.simps add: astext_other)
  qed
next
  case (2 refs)
  then show ?case by simp
next
  case (3 refs c cs)
  then show ?case by (auto split: sum.splits)
qed


lemma rendered_targets_is_target:
  "tagname n = ''target'' \<Longrightarrow> rendered_targets n = [n]"
  by (cases n) simp

lemma process_reference_reference:
  "tagname n = ''reference'' \<Longrightarrow>
     process_reference n R = (Inr (node_astext n, get_refuri n), R \<union> recorded_names [n])"
  by (simp add: process_reference_def split: option.splits)

lemma make_href_reference:
  "tagname n = ''reference'' \<Longrightarrow>
     make_href n R =
       (Inr (Element ''HREF'' [(''link'', get_refuri n)] (Some (node_astext n)) None []),
        R \<union> recorded_names [n])"
  by (simp add: make_href_def process_reference_reference)

lemma make_href_text_reference:
  "tagname n = ''reference'' \<Longrightarrow>
     make_href_text n R =
       (Inr (node_astext n @ '' ['' @ (case get_refuri n of None \<Rightarrow> ''None'' | Some u \<Rightarrow> u) @ '']''),
        R \<union> recorded_names [n])"
  by (simp add: make_href_text_def process_reference_reference)

lemma para_loop_step:
  "para_loop c (n # ns) acc out href R = (Inr x, R') \<Longrightarrow>
     \<exists>acc' out' href'.
        para_loop c ns acc' out' href' (R \<union> recorded_names [n]) = (Inr x, R')"
proof (cases "tagname n = ''reference''")
  case True
  assume "para_loop c (n # ns) acc out href R = (Inr x, R')"
  with True show ?thesis
    by (cases c) (auto simp: process_reference_reference make_href_reference
                       make_href_text_reference simp del: recorded_names.simps)
next
  case False
  assume "para_loop c (n # ns) acc out href R = (Inr x, R')"
  with False show ?thesis
    by (auto split: if_splits sum.splits)
qed

lemma para_loop_head:
  "para_loop c (n # ns) acc out href R = (Inr x, R') \<Longrightarrow> tagname n \<noteq> ''reference'' \<Longrightarrow>
     m \<in> set (rendered_targets n) \<Longrightarrow> \<exists>nm. get_names m = [nm] \<and> lower nm \<in> R"
  by (auto split: if_splits sum.splits simp: rendered_targets_is_target
           dest: process_target_ok astext_targets(1))

lemma para_loop_targets:
  "para_loop c ns acc out href R = (Inr x, R') \<Longrightarrow> i < length ns \<Longrightarrow>
     tagname (ns ! i) \<noteq> ''reference'' \<Longrightarrow> m \<in> set (rendered_targets (ns ! i)) \<Longrightarrow>
     \<exists>nm. get_names m = [nm] \<and> lower nm \<in> R \<union> recorded_names (take i ns)"
proof (induction ns arbitrary: acc out href R i)
  case Nil
  then show ?case by simp
next
  case (Cons n ns)
  show ?case
  proof (cases i)
    case 0
    with Cons.prems para_loop_head [of c n ns acc out href R x R' m] show ?thesis
      by auto
  next
    case (Suc j)
    from para_loop_step [OF Cons.prems(1)] obtain acc' out' href' where
      step: "para_loop c ns acc' out' href' (R \<union> recorded_names [n]) = (Inr x, R')"
      by blast
    from Cons.IH [OF step, of j] Cons.prems Suc
    obtain nm where "get_names m = [nm]"
      "lower nm \<in> (R \<union> recorded_names [n]) \<union> recorded_names (take j ns)"
      by auto
    with Suc show ?thesis by auto
  qed
qed

lemma para_loop_registry:
  "para_loop c ns acc out href R = (Inr x, R') \<Longrightarrow> R' = R \<union> recorded_names ns"
proof (induction ns arbitrary: acc out href R)
  case Nil
  then show ?case by simp
next
  case (Cons n ns)
  from para_loop_step [OF Cons.prems] obtain acc' out' href' where
    step: "para_loop c ns acc' out' href' (R \<union> recorded_names [n]) = (Inr x, R')"
    by blast
  from Cons.IH [OF step] show ?case by auto
qed

lemma process_target_unreferenced:
  "tagname n = ''target'' \<Longrightarrow> get_names n = [nm] \<Longrightarrow> lower nm \<notin> R \<Longrightarrow>
     process_target n R = Inl (ValueError ''Found un-referenced target block'')"
  by (simp add: process_target_def)

text \<open>
  C3, amended. When \<open>convert_para\<close> converts a paragraph, the registry afterwards is the
  registry before plus the lower-cased names of its references, and every target reached
  while rendering its \<open>i\<close>-th child carries exactly one name, whose lower-cased form is in
  the registry as it stood then: the names recorded before the paragraph and those of the
  references among its first \<open>i\<close> children. The same holds for the targets \<open>astext\<close>
  reaches in any node it renders. A target with one name that is not in the registry
  raises the \<open>ValueError\<close> on an un-referenced target in \<open>process_target\<close>. The synopsis is
  not rendered that way: \<open>find_synopsis\<close> succeeds on every document that starts with a
  paragraph and takes the text of the library, whatever targets the paragraph holds.
\<close>

theorem targets_are_referenced:
  "(convert_para para complex refs = (Inr out, refs') \<longrightarrow>
      refs' = refs \<union> recorded_names (children para) \<and>
      (\<forall>i < length (children para). tagname (children para ! i) \<noteq> ''reference'' \<longrightarrow>
         (\<forall>m \<in> set (rendered_targets (children para ! i)).
            \<exists>nm. get_names m = [nm] \<and>
                 lower nm \<in> refs \<union> recorded_names (take i (children para)))))
   \<and> (astext R n = Inr t \<longrightarrow>
         (\<forall>m \<in> set (rendered_targets n). \<exists>nm. get_names m = [nm] \<and> lower nm \<in> R))
   \<and> (tagname n = ''target'' \<and> get_names n = [nm] \<and> lower nm \<notin> R \<longrightarrow>
         process_target n R = Inl (ValueError ''Found un-referenced target block''))
   \<and> (tagname p = ''paragraph'' \<longrightarrow>
         find_synopsis (p # ns) =
           Inr (Some (Element ''SYNOPSIS'' [] (Some (py_strip (node_astext p))) None []),
                Some (map clean (py_split_ws (lower (py_strip (node_astext p))))),
                ns))"
proof (intro conjI impI allI ballI)
  assume "convert_para para complex refs = (Inr out, refs')"
  then show "refs' = refs \<union> recorded_names (children para)"
    unfolding convert_para_def by (rule para_loop_registry)
next
  fix i m
  assume "convert_para para complex refs = (Inr out, refs')"
    and "i < length (children para)" and "tagname (children para ! i) \<noteq> ''reference''"
    and "m \<in> set (rendered_targets (children para ! i))"
  then show "\<exists>nm. get_names m = [nm] \<and>
                 lower nm \<in> refs \<union> recorded_names (take i (children para))"
    unfolding convert_para_def by (rule para_loop_targets)
next
  fix m
  assume "astext R n = Inr t" and "m \<in> set (rendered_targets n)"
  then show "\<exists>nm. get_names m = [nm] \<and> lower nm \<in> R"
    by (rule astext_targets(1))
next
  assume "tagname n = ''target'' \<and> get_names n = [nm] \<and> lower nm \<notin> R"
  then show "process_target n R = Inl (ValueError ''Found un-referenced target block'')"
    by (simp add: process_target_unreferenced)
next
  assume "tagname p = ''paragraph''"
  then show "find_synopsis (p # ns) =
           Inr (Some (Element ''SYNOPSIS'' [] (Some (py_strip (node_astext p))) None []),
                Some (map clean (py_split_ws (lower (py_strip (node_astext p))))),
                ns)"
    by (simp add: find_synopsis_def Let_def)
qed

lemma sample_para_converts:
  "convert_para sample_para True {} =
     (Inr (Element ''PARA'' [] (Some []) None
            [Element ''HREF'' [(''link'', Some ''http://x'')] (Some ''Foo site'') (Some []) []]),
      {''foo''})"
  by code_simp

lemma synopsis_text:
  "py_strip (node_astext synopsis_para) = ''The foo model.''"
  "map clean (py_split_ws (lower ''The foo model.'')) = [''the'', ''foo'', ''model'']"
  by code_simp+

theorem targets_are_referenced_witness:
  "convert_para sample_para True {} =
     (Inr (Element ''PARA'' [] (Some []) None
            [Element ''HREF'' [(''link'', Some ''http://x'')] (Some ''Foo site'') (Some []) []]),
      {''foo''})
   \<and> (\<exists>nm. get_names sample_target = [nm] \<and> lower nm \<in> {} \<union> recorded_names [sample_reference])
   \<and> process_target sample_target {} = Inl (ValueError ''Found un-referenced target block'')
   \<and> find_synopsis [synopsis_para] =
       Inr (Some (Element ''SYNOPSIS'' [] (Some ''The foo model.'') None []),
            Some [''the'', ''foo'', ''model''], [])"
proof -
  have c: "children sample_para = [sample_reference, sample_target]"
    by (simp add: sample_para_def)
  have r: "tagname sample_target \<noteq> ''reference''" "tagname sample_target = ''target''"
    "get_names sample_target = [''foo'']"
    by (simp_all add: sample_target_def)
  have m: "sample_target \<in> set (rendered_targets sample_target)"
    by (simp add: sample_target_def)
  have l: "lower ''foo'' \<notin> {}" by simp
  have p: "tagname synopsis_para = ''paragraph''"
    by (simp add: synopsis_para_def)
  have all: "\<forall>i < length (children sample_para).
      tagname (children sample_para ! i) \<noteq> ''reference'' \<longrightarrow>
         (\<forall>m \<in> set (rendered_targets (children sample_para ! i)).
            \<exists>nm. get_names m = [nm] \<and>
                 lower nm \<in> {} \<union> recorded_names (take i (children sample_para)))"
    using targets_are_referenced [THEN conjunct1, THEN mp, OF sample_para_converts,
        THEN conjunct2] .
  have one: "\<exists>nm. get_names sample_target = [nm] \<and>
      lower nm \<in> {} \<union> recorded_names [sample_reference]"
    using all [rule_format, of 1 sample_target] r m by (simp add: c)
  have two: "process_target sample_target {} =
      Inl (ValueError ''Found un-referenced target block'')"
    using targets_are_referenced [THEN conjunct2, THEN conjunct2, THEN conjunct1, THEN mp,
        of sample_target "''foo''" "{}"] r l by blast
  have three: "find_synopsis [synopsis_para] =
       Inr (Some (Element ''SYNOPSIS'' [] (Some ''The foo model.'') None []),
            Some [''the'', ''foo'', ''model''], [])"
    using targets_are_referenced [THEN conjunct2, THEN conjunct2, THEN conjunct2, THEN mp,
        OF p, of "[]"]
    by (simp only: synopsis_text)
  from sample_para_converts one two three show ?thesis by (intro conjI)
qed

lemma synopsis_converts:
  "convert_docutils synopsis_env ''fit'' [synopsis_para] None None None ''ahelp''
       \<lparr>references = {}, store_versions = None\<rparr>
     = (Inr (Document
          (Element ''cxchelptopics'' [] None None
             [Element ''ENTRY''
                [(''pkg'', Some ''sherpa''), (''key'', Some ''fit''),
                 (''refkeywords'', Some ''foo model the''),
                 (''seealsogroups'', Some []), (''displayseealsogroups'', Some []),
                 (''context'', Some ''sherpaish'')]
                None None
                [Element ''SYNOPSIS'' [] (Some ''The foo model.'') None [],
                 bugs_block,
                 Element ''LASTMODIFIED'' [] (Some ''December 2025'') None []]])),
        \<lparr>references = {},
          store_versions = Some (empty_store\<lparr>has_done := True\<rparr>)\<rparr>)"
  by code_simp

lemma synopsis_para_raises:
  "convert_para synopsis_para True {} =
     (Inl (ValueError ''Found un-referenced target block''), {})"
  by code_simp

text \<open>
  C3 as stated fails: a conversion completes with a target that no reference names. The
  document is the one paragraph \<open>The foo model.\<close> with the inline target \<open>foo\<close>, and the
  registry is empty before and after. The paragraph becomes the synopsis, with the text
  of the target in it, and the output document is returned; \<open>convert_para\<close> on the same
  paragraph and registry raises the \<open>ValueError\<close> on an un-referenced target.
\<close>

theorem unchecked_target_counterexample:
  "convert_docutils synopsis_env ''fit'' [synopsis_para] None None None ''ahelp''
       \<lparr>references = {}, store_versions = None\<rparr>
     = (Inr (Document
          (Element ''cxchelptopics'' [] None None
             [Element ''ENTRY''
                [(''pkg'', Some ''sherpa''), (''key'', Some ''fit''),
                 (''refkeywords'', Some ''foo model the''),
                 (''seealsogroups'', Some []), (''displayseealsogroups'', Some []),
                 (''context'', Some ''sherpaish'')]
                None None
                [Element ''SYNOPSIS'' [] (Some ''The foo model.'') None [],
                 bugs_block,
                 Element ''LASTMODIFIED'' [] (Some ''December 2025'') None []]])),
        \<lparr>references = {},
          store_versions = Some (empty_store\<lparr>has_done := True\<rparr>)\<rparr>)
   \<and> children synopsis_para = [text_node ''The '', inline_target, text_node '' model.'']
   \<and> tagname inline_target = ''target''
   \<and> get_names inline_target = [''foo'']
   \<and> convert_para synopsis_para True {} =
       (Inl (ValueError ''Found un-referenced target block''), {})"
  using synopsis_converts synopsis_para_raises
  by (simp add: synopsis_para_def inline_target_def)

subsection \<open>Targets carry one name\<close>

lemma process_target_names:
  "tagname n = ''target'' \<Longrightarrow> length (get_names n) \<noteq> 1 \<Longrightarrow>
     process_target n refs = Inl AssertionError"
  by (cases "get_names n"; cases "tl (get_names n)") (auto simp: process_target_def)

lemma astext_of_target:
  "tagname n = ''target'' \<Longrightarrow>
     astext refs n = (case process_target n refs of Inl e \<Rightarrow> Inl e | Inr u \<Rightarrow> Inr [])"
  by (cases n) simp

text \<open>
  C9. A target node must carry exactly one name: with no name, or with two or more,
  \<open>process_target\<close> fails its assertion, and so do \<open>astext\<close> on the target and the loop
  of \<open>convert_para\<close> when it reaches it.
\<close>

theorem target_needs_one_name:
  "tagname n = ''target'' \<Longrightarrow> length (get_names n) \<noteq> 1 \<Longrightarrow>
     process_target n refs = Inl AssertionError
     \<and> astext refs n = Inl AssertionError
     \<and> para_loop complex (n # ns) acc out href refs = (Inl AssertionError, refs)"
  by (simp add: process_target_names astext_of_target)

theorem target_needs_one_name_witness:
  "process_target two_names_target {''a'', ''b''} = Inl AssertionError
   \<and> astext {''a'', ''b''} two_names_target = Inl AssertionError
   \<and> convert_para (Node ''paragraph'' None [] None [] [two_names_target]) True {''a'', ''b''}
       = (Inl AssertionError, {''a'', ''b''})
   \<and> process_target no_names_target {} = Inl AssertionError"
proof -
  have a: "tagname two_names_target = ''target''" "length (get_names two_names_target) \<noteq> 1"
    by (simp_all add: two_names_target_def)
  have b: "tagname no_names_target = ''target''" "length (get_names no_names_target) \<noteq> 1"
    by (simp_all add: no_names_target_def)
  from target_needs_one_name [OF a, of "{''a'', ''b''}" True "[]" "[]"
      "Element ''PARA'' [] None None []" None]
    target_needs_one_name [OF b, of "{}"]
  show ?thesis by (simp add: convert_para_def)
qed

subsection \<open>Block quotes\<close>

text \<open>
  C8, amended. A block quote with at least one child, all of whose children are doctest
  blocks, converts to one \<open>VERBATIM\<close> whose text is the texts of the children joined by
  two newlines; three doctest blocks \<open>a\<close>, \<open>b\<close>, \<open>c\<close> give \<open>a\n\nb\n\nc\<close>.
\<close>

theorem block_quote_of_doctests:
  "tagname bq = ''block_quote'' \<Longrightarrow> children bq \<noteq> [] \<Longrightarrow>
   list_all (\<lambda>p. tagname p = ''doctest_block'') (children bq) \<Longrightarrow>
     convert_block_quote bq refs =
       Inr (Element ''VERBATIM'' []
              (Some (py_join [CHR 0x0A, CHR 0x0A] (map node_astext (children bq)))) None [])"
  by (cases "children bq") (auto simp: convert_block_quote_def)

theorem block_quote_of_doctests_witness:
  "convert_block_quote three_doctests {} =
     Inr (Element ''VERBATIM'' []
            (Some [CHR ''a'', CHR 0x0A, CHR 0x0A, CHR ''b'', CHR 0x0A, CHR 0x0A, CHR ''c''])
            None [])"
proof -
  have "tagname three_doctests = ''block_quote''" "children three_doctests \<noteq> []"
    "list_all (\<lambda>p. tagname p = ''doctest_block'') (children three_doctests)"
    by (simp_all add: three_doctests_def doctest_def)
  from block_quote_of_doctests [OF this, of "{}"] show ?thesis
    by (simp add: three_doctests_def doctest_def)
qed

text \<open>
  C8 as stated fails for the block quote without children: all of its children are
  doctest blocks, and \<open>para[0]\<close> raises \<open>IndexError\<close>.
\<close>

theorem block_quote_empty_counterexample:
  "list_all (\<lambda>p. tagname p = ''doctest_block'') (children empty_block_quote)
   \<and> convert_block_quote empty_block_quote {} = Inl IndexError"
  by (simp add: empty_block_quote_def convert_block_quote_def)

subsection \<open>Paragraphs with references\<close>

lemma para_loop_flat:
  "para_loop True cs acc out href refs =
     (case para_runs cs of
        (run0, pairs) \<Rightarrow>
          (case render_run refs run0 of
             Inl e \<Rightarrow> (Inl e, refs)
           | Inr ts \<Rightarrow>
               (case flat_hrefs refs pairs of
                  (Inl e, refs') \<Rightarrow> (Inl e, refs')
                | (Inr hs, refs') \<Rightarrow>
                    (Inr (add_children hs (para_close (acc @ ts) out href)), refs'))))"
proof (induction cs arbitrary: acc out href refs)
  case Nil
  show ?case by (simp add: add_children_def para_close_def set_text_def split: option.splits)
next
  case (Cons n ns)
  obtain run rest where pr: "para_runs ns = (run, rest)" by (cases "para_runs ns")
  show ?case
  proof (cases "tagname n = ''reference''")
    case True
    let ?refs1 = "case get_name n of None \<Rightarrow> refs | Some nm \<Rightarrow> insert (lower nm) refs"
    let ?h = "Element ''HREF'' [(''link'', get_refuri n)] (Some (node_astext n)) None []"
    have mh: "make_href n refs = (Inr ?h, ?refs1)"
      using True by (simp add: make_href_def process_reference_def)
    have step: "para_loop True (n # ns) acc out href refs =
        para_loop True ns [] (para_close acc out href) (Some ?h) ?refs1"
      using True mh by simp
    show ?thesis
      unfolding step Cons.IH
      using True pr
      by (auto simp: Let_def add_children_def para_close_def set_tail_def set_text_def
          split: sum.splits prod.splits option.splits)
  next
    case False
    show ?thesis
    proof (cases "tagname n = ''target''")
      case True
      then show ?thesis
        using False pr Cons.IH by (auto split: sum.splits prod.splits)
    next
      case nt: False
      show ?thesis
        using False nt pr Cons.IH by (auto split: sum.splits prod.splits)
    qed
  qed
qed

text \<open>
  C7. With \<open>complex\<close> set, \<open>convert_para\<close> computes the flat paragraph of the
  specification, with the same result, the same registry and the same exception for
  every paragraph and every registry. In particular a reference with display text \<open>X\<close>
  and link \<open>http://x\<close> followed by the text \<open> more.\<close> gives a \<open>PARA\<close> whose only child
  is \<open>HREF(text=X, link=http://x, tail= more.)\<close>.
\<close>

theorem convert_para_flat:
  "convert_para para True refs = flat_para refs (children para)
   \<and> convert_para
        (Node ''paragraph'' None [] None ''X more.''
           [Node ''reference'' nm [] (Some ''http://x'') ''X'' [],
            Node ''#text'' None [] None '' more.'' []])
        True refs
      = (Inr (Element ''PARA'' [] (Some []) None
               [Element ''HREF'' [(''link'', Some ''http://x'')] (Some ''X'')
                  (Some '' more.'') []]),
         (case nm of None \<Rightarrow> refs | Some x \<Rightarrow> insert (lower x) refs))"
proof
  show "convert_para para True refs = flat_para refs (children para)"
    unfolding convert_para_def flat_para_def para_loop_flat
    by (auto simp: add_children_def para_close_def set_text_def
        split: sum.splits prod.splits)
next
  show "convert_para
        (Node ''paragraph'' None [] None ''X more.''
           [Node ''reference'' nm [] (Some ''http://x'') ''X'' [],
            Node ''#text'' None [] None '' more.'' []])
        True refs
      = (Inr (Element ''PARA'' [] (Some []) None
               [Element ''HREF'' [(''link'', Some ''http://x'')] (Some ''X'')
                  (Some '' more.'') []]),
         (case nm of None \<Rightarrow> refs | Some x \<Rightarrow> insert (lower x) refs))"
    by (simp add: convert_para_def make_href_def process_reference_def para_close_def
        set_text_def set_tail_def)
qed

theorem convert_para_flat_witness:
  "convert_para
        (Node ''paragraph'' None [] None ''X more.''
           [Node ''reference'' None [] (Some ''http://x'') ''X'' [],
            Node ''#text'' None [] None '' more.'' []])
        True {}
      = (Inr (Element ''PARA'' [] (Some []) None
               [Element ''HREF'' [(''link'', Some ''http://x'')] (Some ''X'')
                  (Some '' more.'') []]),
         {})"
  using convert_para_flat [THEN conjunct2, of None "{}"] by simp


subsection \<open>Merging metadata\<close>

lemma takeWhile_nonspace:
  "list_all (\<lambda>c. \<not> py_isspace c) (takeWhile (\<lambda>x. \<not> py_isspace x) cs)"
  by (induction cs) simp_all

lemma py_split_ws_tokens: "list_all is_token (py_split_ws s)"
proof (induction s rule: py_split_ws.induct)
  case 1
  show ?case by simp
next
  case (2 c cs)
  show ?case
  proof (cases "py_isspace c")
    case True
    with "2.IH"(1) show ?thesis by simp
  next
    case False
    with "2.IH"(2) show ?thesis by (simp add: is_token_def takeWhile_nonspace)
  qed
qed

lemma py_split_ws_token_sep:
  assumes "is_token t" "py_isspace d"
  shows "py_split_ws (t @ d # r) = t # py_split_ws r"
proof -
  from assms(1) obtain c cs where t: "t = c # cs" and c: "\<not> py_isspace c"
    and cs: "\<forall>x \<in> set cs. \<not> py_isspace x"
    by (cases t) (auto simp: is_token_def list_all_iff)
  have tw: "takeWhile (\<lambda>x. \<not> py_isspace x) (cs @ d # r) = cs"
    using cs assms(2) by (simp add: takeWhile_append2)
  have dw: "dropWhile (\<lambda>x. \<not> py_isspace x) (cs @ d # r) = d # r"
    using cs assms(2) by (simp add: dropWhile_append2)
  show ?thesis using c assms(2) by (simp add: t tw dw)
qed

lemma py_split_ws_token: "is_token t \<Longrightarrow> py_split_ws t = [t]"
proof -
  assume a: "is_token t"
  then obtain c cs where t: "t = c # cs" and c: "\<not> py_isspace c"
    and cs: "\<forall>x \<in> set cs. \<not> py_isspace x"
    by (cases t) (auto simp: is_token_def list_all_iff)
  have tw: "takeWhile (\<lambda>x. \<not> py_isspace x) cs = cs" using cs by simp
  have dw: "dropWhile (\<lambda>x. \<not> py_isspace x) cs = []" using cs by simp
  show ?thesis using c by (simp add: t tw dw)
qed

lemma space_isspace: "py_isspace (CHR '' '')"
  by (simp add: py_isspace_def)

lemma py_split_ws_join:
  "list_all is_token ts \<Longrightarrow> py_split_ws (py_join '' '' ts) = ts"
proof (induction "'' ''" ts rule: py_join.induct)
  case 1
  then show ?case by simp
next
  case (2 x)
  then show ?case by (simp add: py_split_ws_token)
next
  case (3 x y ys)
  then show ?case
    using py_split_ws_token_sep [of x "CHR '' ''" "py_join '' '' (y # ys)"]
    by (simp add: space_isspace)
qed

lemma sorted_set_set: "set (sorted_set xs) = set xs"
  by (simp add: sorted_set_def)

lemma py_split_ws_append_values:
  "py_split_ws (append_values x v) = sorted_set (py_split_ws x @ py_split_ws v)"
  unfolding append_values_def
proof (rule py_split_ws_join)
  have "list_all is_token (py_split_ws x @ py_split_ws v)"
    by (simp add: py_split_ws_tokens)
  then show "list_all is_token (sorted_set (py_split_ws x @ py_split_ws v))"
    unfolding list_all_iff sorted_set_set .
qed

lemma append_values_idem: "append_values (append_values x v) v = append_values x v"
proof -
  have "set (py_split_ws (append_values x v) @ py_split_ws v)
          = set (py_split_ws x @ py_split_ws v)"
    by (auto simp: py_split_ws_append_values sorted_set_set)
  then show ?thesis
    by (simp only: append_values_def sorted_set_def)
qed

lemma append_values_commute: "append_values x v = append_values v x"
  by (simp add: append_values_def sorted_set_def Un_commute)

lemma merge_loop_other_key:
  "merge_loop items x = Inr x' \<Longrightarrow> k \<notin> fst ` set items \<Longrightarrow> map_of x' k = map_of x k"
proof (induction items arbitrary: x)
  case Nil
  then show ?case by simp
next
  case (Cons kv items)
  obtain k0 v0 where kv: "kv = (k0, v0)" by (cases kv)
  from Cons.prems(2) kv have ne: "k \<noteq> k0" and nin: "k \<notin> fst ` set items" by auto
  from Cons.prems(1) kv obtain x1 where
    x1: "merge_loop items x1 = Inr x'" and m: "map_of x1 k = map_of x k"
    using ne by (auto split: option.splits if_splits simp: update_conv')
  from Cons.IH [OF x1 nin] m show ?case by simp
qed

lemma merge_loop_idem:
  "distinct (map fst items) \<Longrightarrow> merge_loop items x = Inr x' \<Longrightarrow> merge_loop items x' = Inr x'"
proof (induction items arbitrary: x)
  case Nil
  then show ?case by simp
next
  case (Cons kv items)
  obtain k v where kv: "kv = (k, v)" by (cases kv)
  from Cons.prems(1) kv have nin: "k \<notin> fst ` set items" and d: "distinct (map fst items)"
    by auto
  show ?case
  proof (cases "k \<in> set [''seealsogroups'', ''displayseealsogroups'', ''refkeywords'']")
    case True
    from Cons.prems(2) kv True obtain xs vs where
      xk: "map_of x k = Some (Some xs)" and vv: "v = Some vs"
      and rest: "merge_loop items (AList.update k (Some (append_values xs vs)) x) = Inr x'"
      by (auto split: option.splits)
    have k': "map_of x' k = Some (Some (append_values xs vs))"
      using merge_loop_other_key [OF rest nin] by (simp add: update_conv')
    have same: "AList.update k (Some (append_values (append_values xs vs) vs)) x' = x'"
      using k' by (simp add: append_values_idem update_triv)
    from Cons.IH [OF d rest] have "merge_loop items x' = Inr x'" .
    with True k' vv same kv show ?thesis by simp
  next
    case False
    from Cons.prems(2) kv False obtain cur where
      xk: "map_of x k = Some cur"
      and rest: "merge_loop items (AList.update k v x) = Inr x'"
      by (auto split: option.splits)
    have k': "map_of x' k = Some v"
      using merge_loop_other_key [OF rest nin] by (simp add: update_conv')
    then have same: "AList.update k v x' = x'" by (simp add: update_triv)
    from Cons.IH [OF d rest] have "merge_loop items x' = Inr x'" .
    with False k' same kv show ?thesis by simp
  qed
qed

lemma mergeable_update:
  "mergeable x ((k, v) # items) \<Longrightarrow> (k \<in> set multi_keys \<longrightarrow> w \<noteq> None) \<Longrightarrow>
     mergeable (AList.update k w x) items"
  by (auto simp: mergeable_def list_all_iff update_conv')

lemma merge_loop_total:
  "mergeable x items \<Longrightarrow> \<exists>x'. merge_loop items x = Inr x'"
proof (induction items arbitrary: x)
  case Nil
  then show ?case by simp
next
  case (Cons kv items)
  obtain k v where kv: "kv = (k, v)" by (cases kv)
  from Cons.prems kv obtain cur where cur: "map_of x k = Some cur"
    by (auto simp: mergeable_def)
  show ?case
  proof (cases "k \<in> set multi_keys")
    case True
    with Cons.prems kv cur obtain xs vs where s: "cur = Some xs" "v = Some vs"
      by (cases cur; cases v) (auto simp: mergeable_def list_all_iff)
    from mergeable_update [of x k v items "Some (append_values xs vs)"] Cons.prems kv
    have "mergeable (AList.update k (Some (append_values xs vs)) x) items" by simp
    from Cons.IH [OF this] True cur s kv show ?thesis by (simp add: multi_keys_def)
  next
    case False
    from mergeable_update [of x k v items v] Cons.prems kv False
    have "mergeable (AList.update k v x) items" by simp
    from Cons.IH [OF this] False cur kv show ?thesis by (simp add: multi_keys_def)
  qed
qed

lemma merge_loop_multi:
  "distinct (map fst items) \<Longrightarrow> merge_loop items x = Inr x' \<Longrightarrow> (k, Some vs) \<in> set items \<Longrightarrow>
   k \<in> set multi_keys \<Longrightarrow> map_of x k = Some (Some xs) \<Longrightarrow>
     map_of x' k = Some (Some (append_values xs vs))"
proof (induction items arbitrary: x)
  case Nil
  then show ?case by simp
next
  case (Cons kv items)
  obtain k0 v0 where kv: "kv = (k0, v0)" by (cases kv)
  from Cons.prems(1) kv have nin: "k0 \<notin> fst ` set items" and d: "distinct (map fst items)"
    by auto
  show ?case
  proof (cases "k0 = k")
    case True
    with Cons.prems(3) nin kv have v0: "v0 = Some vs" by force
    from Cons.prems(2,4,5) kv True v0
    have rest: "merge_loop items (AList.update k (Some (append_values xs vs)) x) = Inr x'"
      by (simp add: multi_keys_def)
    from merge_loop_other_key [OF rest] nin True show ?thesis
      by (simp add: update_conv')
  next
    case False
    with Cons.prems(3) kv have mem: "(k, Some vs) \<in> set items" by auto
    from Cons.prems(2) kv obtain x1 where
      x1: "merge_loop items x1 = Inr x'" and m: "map_of x1 k = map_of x k"
      using False by (auto split: option.splits if_splits simp: update_conv')
    from Cons.IH [OF d x1 mem Cons.prems(4)] m Cons.prems(5) show ?thesis by simp
  qed
qed

text \<open>
  C6. For an override \<open>a\<close> with distinct keys (a dictionary) that can be merged into
  \<open>m\<close>, the merge returns a dictionary \<open>m'\<close>, and merging \<open>a\<close> into \<open>m'\<close> again returns
  \<open>m'\<close>. For a multi-valued key the merged value is \<open>append_values\<close> of the two values:
  it splits at whitespace into the sorted list without duplicates of the tokens of both,
  and it does not depend on the order of the two values.
\<close>

theorem merge_metadata_idempotent:
  "distinct (map fst a) \<Longrightarrow> mergeable m a \<Longrightarrow>
     (\<exists>m'. merge_metadata m (Some a) = Inr m' \<and> merge_metadata m' (Some a) = Inr m'
           \<and> (\<forall>k vs xs. (k, Some vs) \<in> set a \<and> k \<in> set multi_keys
                  \<and> map_of m k = Some (Some xs)
                \<longrightarrow> map_of m' k = Some (Some (append_values xs vs))))
     \<and> py_split_ws (append_values x v) = sorted_set (py_split_ws x @ py_split_ws v)
     \<and> append_values x v = append_values v x"
proof (intro conjI)
  assume d: "distinct (map fst a)" and ok: "mergeable m a"
  from merge_loop_total [OF ok] obtain m' where m': "merge_loop a m = Inr m'" by blast
  have "merge_loop a m' = Inr m'" by (rule merge_loop_idem [OF d m'])
  moreover have "\<forall>k vs xs. (k, Some vs) \<in> set a \<and> k \<in> set multi_keys
                  \<and> map_of m k = Some (Some xs)
                \<longrightarrow> map_of m' k = Some (Some (append_values xs vs))"
    using merge_loop_multi [OF d m'] by blast
  ultimately show "\<exists>m'. merge_metadata m (Some a) = Inr m' \<and> merge_metadata m' (Some a) = Inr m'
           \<and> (\<forall>k vs xs. (k, Some vs) \<in> set a \<and> k \<in> set multi_keys
                  \<and> map_of m k = Some (Some xs)
                \<longrightarrow> map_of m' k = Some (Some (append_values xs vs)))"
    using m' by (auto simp: merge_metadata_def)
next
  show "py_split_ws (append_values x v) = sorted_set (py_split_ws x @ py_split_ws v)"
    by (rule py_split_ws_append_values)
next
  show "append_values x v = append_values v x" by (rule append_values_commute)
qed

lemma sample_merge:
  "merge_metadata sample_attrs (Some sample_metadata) =
     Inr [(''pkg'', Some ''sherpa''), (''key'', Some ''fit''),
          (''refkeywords'', Some ''a fit model perform''),
          (''seealsogroups'', Some ''''), (''displayseealsogroups'', Some ''''),
          (''context'', Some ''fitting'')]"
  by code_simp

theorem merge_metadata_idempotent_witness:
  "distinct (map fst sample_metadata) \<and> mergeable sample_attrs sample_metadata
   \<and> (\<exists>m'. merge_metadata sample_attrs (Some sample_metadata) = Inr m'
           \<and> merge_metadata m' (Some sample_metadata) = Inr m')
   \<and> merge_metadata sample_attrs (Some sample_metadata) =
     Inr [(''pkg'', Some ''sherpa''), (''key'', Some ''fit''),
          (''refkeywords'', Some ''a fit model perform''),
          (''seealsogroups'', Some ''''), (''displayseealsogroups'', Some ''''),
          (''context'', Some ''fitting'')]"
proof -
  have d: "distinct (map fst sample_metadata)" by (simp add: sample_metadata_def)
  have ok: "mergeable sample_attrs sample_metadata"
    by (simp add: mergeable_def sample_attrs_def sample_metadata_def multi_keys_def)
  from merge_metadata_idempotent [OF d ok, THEN conjunct1]
  have "\<exists>m'. merge_metadata sample_attrs (Some sample_metadata) = Inr m'
           \<and> merge_metadata m' (Some sample_metadata) = Inr m'"
    by blast
  with d ok sample_merge show ?thesis by (intro conjI)
qed

subsection \<open>The version block\<close>

lemma extends_refl: "extends key st st []"
  by (simp add: extends_def)

lemma extends_titles: "extends key st st' new \<Longrightarrow> extends key (st\<lparr>titles := T\<rparr>) st' new"
  by (simp add: extends_def)

lemma extends_append:
  "extends key (store_append key p st) st' new \<Longrightarrow> extends key st st' (p # new)"
  by (auto simp: extends_def store_append_def split: if_splits)

lemma versionwarning_rest_extends:
  "versionwarning_rest key refs blks st = (r, st') \<Longrightarrow>
     \<exists>new. extends key st st' new \<and> list_all ok_title new"
proof (induction blks arbitrary: st)
  case Nil
  then show ?case using extends_refl [of key st] by auto
next
  case (Cons blk blks)
  show ?case
  proof (cases "is_para blk")
    case False
    with Cons.prems show ?thesis using extends_refl [of key st] by auto
  next
    case True
    show ?thesis
    proof (cases "astext refs blk")
      case (Inl e)
      with True Cons.prems show ?thesis using extends_refl [of key st] by auto
    next
      case (Inr t)
      let ?p = "Element ''PARA'' [] (Some t) None []"
      from True Inr Cons.prems
      have "versionwarning_rest key refs blks (store_append key ?p st) = (r, st')" by simp
      from Cons.IH [OF this] obtain new where
        "extends key (store_append key ?p st) st' new" "list_all ok_title new" by blast
      then have "extends key st st' (?p # new) \<and> list_all ok_title (?p # new)"
        by (simp add: extends_append ok_title_def el_get_def)
      then show ?thesis by blast
    qed
  qed
qed

lemma versionwarning_first_extends:
  "\<exists>p. extends tag st (versionwarning_first tag version ts st) [p] \<and> ok_title p"
proof -
  define lbl where "lbl = (if tag = ''versionadded'' then ''Added'' else ''Changed'')"
  define title where "title = lbl @ '' in CIAO '' @ version"
  define out where "out = Element ''PARA''
       (if title \<notin> titles st then [(''title'', Some title)] else []) None None []"
  define out1 where "out1 = (case ts of [] \<Rightarrow> out
       | t1 # ts' \<Rightarrow> if \<not> xsversion_warning t1 then set_text (Some t1) out else out)"
  have eq: "versionwarning_first tag version ts st =
      store_append tag out1 (st\<lparr>titles := insert title (titles st)\<rparr>)"
    unfolding versionwarning_first_def Let_def out1_def out_def title_def lbl_def ..
  have "title \<noteq> ''New in CIAO 4.14''"
    unfolding title_def lbl_def by (cases "tag = ''versionadded''") simp_all
  then have "ok_title out"
    by (simp add: out_def ok_title_def el_get_def)
  then have ok: "ok_title out1"
    unfolding out1_def by (simp add: ok_title_def el_get_def set_text_def split: list.splits)
  have "extends tag st (store_append tag out1 (st\<lparr>titles := insert title (titles st)\<rparr>)) [out1]"
    by (simp add: extends_def store_append_def)
  with ok eq show ?thesis by auto
qed

lemma comment_versionwarning_store_extends:
  "\<exists>p. extends tag st (comment_versionwarning_store tag version toks st) [p] \<and> ok_title p"
proof -
  define lbl where "lbl = (if tag = ''versionadded'' then ''Added'' else ''Changed'')"
  define title where "title = lbl @ '' in CIAO '' @ version"
  define out where "out = Element ''PARA'' [(''title'', Some title)] None None []"
  define out1 where "out1 = (if length toks = 2 then set_text (Some (toks ! 1)) out else out)"
  have eq: "comment_versionwarning_store tag version toks st = store_append tag out1 st"
    unfolding comment_versionwarning_store_def Let_def out1_def out_def title_def lbl_def ..
  have "title \<noteq> ''New in CIAO 4.14''"
    unfolding title_def lbl_def by (cases "tag = ''versionadded''") simp_all
  then have "ok_title out"
    by (simp add: out_def ok_title_def el_get_def)
  then have ok: "ok_title out1"
    unfolding out1_def by (simp add: ok_title_def el_get_def set_text_def)
  have "extends tag st (store_append tag out1 st) [out1]"
    by (simp add: extends_def store_append_def)
  with ok eq show ?thesis by auto
qed

lemma extends_trans:
  "extends key st st1 new1 \<Longrightarrow> extends key st1 st2 new2 \<Longrightarrow> extends key st st2 (new1 @ new2)"
  by (auto simp: extends_def split: if_splits)

lemma convert_versionwarning_extends:
  assumes "convert_versionwarning block g = (Inr u, g')" and "store_versions g = Some st"
  shows "\<exists>st' new. store_versions g' = Some st' \<and> extends (tagname block) st st' new
            \<and> list_all ok_title new"
proof -
  from assms obtain bs version ts r st3 where
    rest: "versionwarning_rest (tagname block) (references g) bs
             (versionwarning_first (tagname block) version ts st) = (r, st3)"
    and g3: "g' = g\<lparr>store_versions := Some st3\<rparr>"
    by (auto simp: convert_versionwarning_def
             split: if_splits list.splits sum.splits prod.splits)
  from versionwarning_first_extends [of "tagname block" st version ts] obtain p where
    p: "extends (tagname block) st (versionwarning_first (tagname block) version ts st) [p]"
      "ok_title p" by blast
  from versionwarning_rest_extends [OF rest] obtain new where
    new: "extends (tagname block) (versionwarning_first (tagname block) version ts st) st3 new"
      "list_all ok_title new" by blast
  from extends_trans [OF p(1) new(1)] p(2) new(2) g3 show ?thesis by auto
qed

lemma convert_comment_versionwarning_extends:
  assumes "convert_comment_versionwarning block g = (Inr u, g')" and "store_versions g = Some st"
  shows "\<exists>st' new key. store_versions g' = Some st' \<and> extends key st st' new
            \<and> list_all ok_title new"
proof -
  from assms obtain tag version toks where
    g': "g' = g\<lparr>store_versions := Some (comment_versionwarning_store tag version toks st)\<rparr>"
    by (auto simp: convert_comment_versionwarning_def Let_def
             split: if_splits list.splits sum.splits)
  from comment_versionwarning_store_extends [of tag st version toks] g' show ?thesis
    by auto
qed

lemma new_entries_extends:
  "extends key st st' new \<Longrightarrow>
     entries_of ''versionchanged'' (new_entries st st') =
       (if key = ''versionadded'' then [] else new)
     \<and> entries_of ''versionadded'' (new_entries st st') =
       (if key = ''versionadded'' then new else [])"
  by (auto simp: extends_def new_entries_def entries_of_def filter_map comp_def)

lemma entries_of_append:
  "entries_of key (xs @ ys) = entries_of key xs @ entries_of key ys"
  by (simp add: entries_of_def)

lemma recorded_step:
  assumes "extends key st st' new" "list_all ok_title new"
    and "versionchanged st = entries_of ''versionchanged'' entries
     \<and> versionadded st = entries_of ''versionadded'' entries
     \<and> \<not> has_done st \<and> list_all ok_title (versionadded st)"
  shows "versionchanged st' = entries_of ''versionchanged'' (entries @ new_entries st st')
     \<and> versionadded st' = entries_of ''versionadded'' (entries @ new_entries st st')
     \<and> \<not> has_done st' \<and> list_all ok_title (versionadded st')"
  using assms new_entries_extends [OF assms(1)]
  by (auto simp: entries_of_append extends_def split: if_splits)

lemma recorded_lists:
  "recorded entries st \<Longrightarrow>
     versionchanged st = entries_of ''versionchanged'' entries
     \<and> versionadded st = entries_of ''versionadded'' entries
     \<and> \<not> has_done st \<and> list_all ok_title (versionadded st)"
proof (induction rule: recorded.induct)
  case fresh
  show ?case by (simp add: empty_store_def entries_of_def)
next
  case (versionwarning entries st g block g' st')
  from convert_versionwarning_extends [OF versionwarning(3,2)] versionwarning(4)
  obtain new where "extends (tagname block) st st' new" "list_all ok_title new" by auto
  from recorded_step [OF this versionwarning.IH] show ?case .
next
  case (comment_versionwarning entries st g block g' st')
  from convert_comment_versionwarning_extends [OF comment_versionwarning(3,2)]
    comment_versionwarning(4)
  obtain new key where "extends key st st' new" "list_all ok_title new" by auto
  from recorded_step [OF this comment_versionwarning.IH] show ?case .
qed

lemma added_loop_plain:
  "name \<notin> set [''pseudovoigt1d'', ''voigt1d''] \<Longrightarrow> added_loop name ps = (None, ps)"
  by (induction ps) auto

lemma added_loop_patch:
  "added_loop name ps = (None, qs) \<Longrightarrow> qs = map (voigt_patch name) ps"
proof (induction ps arbitrary: qs)
  case Nil
  then show ?case by simp
next
  case (Cons p ps)
  then show ?case
    by (cases "added_loop name ps") (auto simp: voigt_patch_def split: if_splits)
qed

lemma not_skippy:
  "list_all ok_title ps \<Longrightarrow>
     \<not> list_ex (\<lambda>p. el_get p ''title'' = Some ''New in CIAO 4.14'') ps"
  by (simp add: list_all_iff list_ex_iff ok_title_def)

lemma make_versioninfo_no_skip:
  "\<not> has_done st \<Longrightarrow> list_all ok_title (versionadded st) \<Longrightarrow>
     make_versioninfo name st =
       (case added_loop name (versionadded st) of
          (Some e, ps) \<Rightarrow> (Inl e, st\<lparr>versionadded := ps\<rparr>)
        | (None, ps) \<Rightarrow>
            (Inr (if length (versionchanged st @ ps) = 0 then None
                  else Some (Element ''ADESC'' [(''title'', Some ''Changes in CIAO'')]
                               None None (versionchanged st @ ps))),
             st\<lparr>versionadded := ps, has_done := True\<rparr>))"
  using not_skippy [of "versionadded st"]
  by (cases "added_loop name (versionadded st)"; cases "fst (added_loop name (versionadded st))")
     (simp_all add: make_versioninfo_def Let_def)

text \<open>
  C5. For every sequence of recorded version entries, the block that lines 3009 to 3055
  build lists all entries recorded under \<open>versionchanged\<close> first, in recording order,
  and then all entries recorded under \<open>versionadded\<close>, in recording order. For every
  symbol but the two Voigt models the block is returned, and it is exactly these
  entries (no block when there is no entry); for the two Voigt models line 3043 may
  raise, and a block that is returned holds the same entries in the same order, the
  added ones with the text of line 3044.
\<close>

theorem versioninfo_lists_changed_then_added:
  "recorded entries st \<Longrightarrow>
     (name \<notin> set [''pseudovoigt1d'', ''voigt1d''] \<longrightarrow>
        fst (make_versioninfo name st) =
          Inr (if entries_of ''versionchanged'' entries @ entries_of ''versionadded'' entries = []
               then None
               else Some (Element ''ADESC'' [(''title'', Some ''Changes in CIAO'')] None None
                            (entries_of ''versionchanged'' entries
                             @ entries_of ''versionadded'' entries))))
     \<and> (\<forall>e. fst (make_versioninfo name st) = Inr (Some e) \<longrightarrow>
            el_children e =
              entries_of ''versionchanged'' entries
              @ map (voigt_patch name) (entries_of ''versionadded'' entries))"
proof -
  assume r: "recorded entries st"
  from recorded_lists [OF r] have
    c: "versionchanged st = entries_of ''versionchanged'' entries"
    and a: "versionadded st = entries_of ''versionadded'' entries"
    and nd: "\<not> has_done st" and ok: "list_all ok_title (versionadded st)"
    by blast+
  note mv = make_versioninfo_no_skip [OF nd ok, of name]
  show ?thesis
  proof (intro conjI impI allI)
    assume "name \<notin> set [''pseudovoigt1d'', ''voigt1d'']"
    from added_loop_plain [OF this, of "versionadded st"]
    show "fst (make_versioninfo name st) =
          Inr (if entries_of ''versionchanged'' entries @ entries_of ''versionadded'' entries = []
               then None
               else Some (Element ''ADESC'' [(''title'', Some ''Changes in CIAO'')] None None
                            (entries_of ''versionchanged'' entries
                             @ entries_of ''versionadded'' entries)))"
      unfolding mv by (simp add: c a)
  next
    fix e
    assume e: "fst (make_versioninfo name st) = Inr (Some e)"
    obtain r ps where al: "added_loop name (versionadded st) = (r, ps)"
      by (cases "added_loop name (versionadded st)")
    from e al have rn: "r = None" unfolding mv by (cases r) simp_all
    from added_loop_patch [OF al [unfolded rn]] have ps: "ps = map (voigt_patch name) (versionadded st)" .
    from e al rn have "el_children e = versionchanged st @ ps"
      unfolding mv by (auto split: if_splits)
    then show "el_children e =
              entries_of ''versionchanged'' entries
              @ map (voigt_patch name) (entries_of ''versionadded'' entries)"
      by (simp add: ps c a)
  qed
qed

lemma record_changed_416:
  "convert_versionwarning changed_416 fresh_globals =
     (Inr (), \<lparr>references = {}, store_versions = Some store_1\<rparr>)"
  by code_simp

lemma record_added_412:
  "convert_versionwarning added_412 \<lparr>references = {}, store_versions = Some store_1\<rparr> =
     (Inr (), \<lparr>references = {}, store_versions = Some store_2\<rparr>)"
  by code_simp

lemma recorded_store_2:
  "recorded [(''versionchanged'', para_changed_416), (''versionadded'', para_added_412)] store_2"
proof -
  have n1: "new_entries empty_store store_1 = [(''versionchanged'', para_changed_416)]"
    by (simp add: new_entries_def empty_store_def store_1_def)
  have n2: "new_entries store_1 store_2 = [(''versionadded'', para_added_412)]"
    by (simp add: new_entries_def store_1_def store_2_def)
  have "recorded ([] @ new_entries empty_store store_1) store_1"
    by (rule recorded.versionwarning [OF recorded.fresh _ record_changed_416])
       (simp_all add: fresh_globals_def)
  then have r1: "recorded [(''versionchanged'', para_changed_416)] store_1"
    by (simp add: n1)
  have "recorded ([(''versionchanged'', para_changed_416)] @ new_entries store_1 store_2) store_2"
    by (rule recorded.versionwarning [OF r1 _ record_added_412]) simp_all
  then show ?thesis by (simp add: n2)
qed

theorem versioninfo_lists_changed_then_added_witness:
  "recorded [(''versionchanged'', para_changed_416), (''versionadded'', para_added_412)] store_2
   \<and> fst (make_versioninfo ''fit'' store_2) =
       Inr (Some (Element ''ADESC'' [(''title'', Some ''Changes in CIAO'')] None None
                    [para_changed_416, para_added_412]))"
proof -
  have "''fit'' \<notin> set [''pseudovoigt1d'', ''voigt1d'']" by simp
  with versioninfo_lists_changed_then_added [OF recorded_store_2, of "''fit''", THEN conjunct1]
  have "fst (make_versioninfo ''fit'' store_2) =
       Inr (Some (Element ''ADESC'' [(''title'', Some ''Changes in CIAO'')] None None
                    [para_changed_416, para_added_412]))"
    by (simp add: entries_of_def)
  with recorded_store_2 show ?thesis by (intro conjI)
qed

lemma record_414:
  "convert_versionwarning changed_414 fresh_globals =
     (Inr (), \<lparr>references = {},
               store_versions = Some \<lparr>versionadded = [], versionchanged = [para_changed_414],
                 titles = {''Changed in CIAO 4.14''}, has_done = False\<rparr>\<rparr>)"
  "convert_versionwarning added_414
     \<lparr>references = {},
      store_versions = Some \<lparr>versionadded = [], versionchanged = [para_changed_414],
                 titles = {''Changed in CIAO 4.14''}, has_done = False\<rparr>\<rparr> =
     (Inr (), \<lparr>references = {}, store_versions = Some store_414\<rparr>)"
  by code_simp+

lemma flush_414:
  "fst (make_versioninfo ''xsagnslim'' store_414) =
     Inr (Some (Element ''ADESC'' [(''title'', Some ''Changes in CIAO'')] None None
                  [para_changed_414, para_added_414]))"
  "fst (make_versioninfo ''fit'' store_414) =
     Inr (Some (Element ''ADESC'' [(''title'', Some ''Changes in CIAO'')] None None
                  [para_changed_414, para_added_414]))"
  by code_simp+

text \<open>
  C4 on the code. A symbol with a \<open>versionchanged\<close> and a \<open>versionadded\<close> block for
  4.14.0 gets the entries \<open>Changed in CIAO 4.14\<close> and \<open>Added in CIAO 4.14\<close>. Line 3026
  looks for an added entry titled \<open>New in CIAO 4.14\<close>, which no recorded entry carries, so
  the block keeps both entries for the listed symbol \<open>xsagnslim\<close>, and nothing is raised
  for a symbol that is not listed.
\<close>

theorem changed_and_added_414_both_emitted:
  "convert_versionwarning changed_414 fresh_globals =
     (Inr (), \<lparr>references = {},
               store_versions = Some \<lparr>versionadded = [], versionchanged = [para_changed_414],
                 titles = {''Changed in CIAO 4.14''}, has_done = False\<rparr>\<rparr>)
   \<and> convert_versionwarning added_414
     \<lparr>references = {},
      store_versions = Some \<lparr>versionadded = [], versionchanged = [para_changed_414],
                 titles = {''Changed in CIAO 4.14''}, has_done = False\<rparr>\<rparr> =
     (Inr (), \<lparr>references = {}, store_versions = Some store_414\<rparr>)
   \<and> fst (make_versioninfo ''xsagnslim'' store_414) =
     Inr (Some (Element ''ADESC'' [(''title'', Some ''Changes in CIAO'')] None None
                  [para_changed_414, para_added_414]))
   \<and> fst (make_versioninfo ''fit'' store_414) =
     Inr (Some (Element ''ADESC'' [(''title'', Some ''Changes in CIAO'')] None None
                  [para_changed_414, para_added_414]))"
  using record_414 flush_414 by (intro conjI)

subsection \<open>Nodes left over\<close>

text \<open>
  C1, amended. When the extractors leave nodes over, \<open>convert_docutils\<close> does not raise:
  it returns the list of these nodes in place of a document (line 2994), for every
  extractor chain; when they leave nothing over it never returns such a list.
\<close>

theorem trailing_nodes_returned:
  "dtd \<in> set [''ahelp'', ''sxml''] \<Longrightarrow> synonyms \<noteq> Some [] \<Longrightarrow>
   segment E name doc sig synonyms (reset_stored_versions g) = (Inr s, g1) \<Longrightarrow>
     (seg_nodes s \<noteq> [] \<longrightarrow>
        convert_docutils E name doc sig metadata synonyms dtd g
          = (Inr (Trailing (seg_nodes s)), g1))
     \<and> (seg_nodes s = [] \<longrightarrow>
          fst (convert_docutils E name doc sig metadata synonyms dtd g) \<noteq> Inr (Trailing ns))"
  by (auto simp: convert_docutils_def assemble_def Let_def
           split: option.splits sum.splits prod.splits)

theorem trailing_nodes_returned_witness:
  "convert_docutils unmatched_env ''fit'' [other_rubric] None None None ''ahelp''
       \<lparr>references = {}, store_versions = None\<rparr>
     = (Inr (Trailing [other_rubric]), \<lparr>references = {}, store_versions = Some empty_store\<rparr>)"
proof -
  have a: "''ahelp'' \<in> set [''ahelp'', ''sxml'']" by simp
  have b: "(None :: string list option) \<noteq> Some []" by simp
  have c: "segment unmatched_env ''fit'' [other_rubric] None None
             (reset_stored_versions \<lparr>references = {}, store_versions = None\<rparr>)
           = (Inr (unmatched [other_rubric]),
              \<lparr>references = {}, store_versions = Some empty_store\<rparr>)"
    by (simp add: unmatched_env_def reset_stored_versions_def)
  from trailing_nodes_returned [OF a b c, of None, THEN conjunct1] show ?thesis
    by (simp add: unmatched_def)
qed

text \<open>
  C1 as stated fails: with a node left over the result is a value, not an exception.
\<close>

theorem trailing_nodes_not_fatal_counterexample:
  "seg_nodes (unmatched [other_rubric]) \<noteq> []
   \<and> fst (convert_docutils unmatched_env ''fit'' [other_rubric] None None None ''ahelp''
            \<lparr>references = {}, store_versions = None\<rparr>)
       = Inr (Trailing [other_rubric])"
  by (simp add: convert_docutils_def unmatched_env_def unmatched_def reset_stored_versions_def)

subsection \<open>State between conversions\<close>

text \<open>
  C2, amended. The version store is reset when a conversion begins: the result of
  \<open>convert_docutils\<close> is the same whatever store the conversion before left, for every
  extractor chain, and so is the state it leaves once the two checks on its arguments
  have passed. The registry is not reset: \<open>reset_stored_versions\<close>, the only change of
  state before the extractors run, leaves it as it is.
\<close>

theorem store_is_reset_registry_is_kept:
  "fst (convert_docutils E name doc sig metadata synonyms dtd (g\<lparr>store_versions := sv\<rparr>))
     = fst (convert_docutils E name doc sig metadata synonyms dtd g)
   \<and> (dtd \<in> set [''ahelp'', ''sxml''] \<and> synonyms \<noteq> Some [] \<longrightarrow>
        convert_docutils E name doc sig metadata synonyms dtd (g\<lparr>store_versions := sv\<rparr>)
          = convert_docutils E name doc sig metadata synonyms dtd g)
   \<and> store_versions (reset_stored_versions g) = Some empty_store
   \<and> references (reset_stored_versions g) = references g"
  by (simp add: convert_docutils_def reset_stored_versions_def)

theorem store_is_reset_registry_is_kept_witness:
  "fst (convert_docutils unmatched_env ''fit'' [other_rubric] None None None ''ahelp''
          \<lparr>references = {''foo''}, store_versions = Some store_2\<rparr>)
     = Inr (Trailing [other_rubric])"
proof -
  have "fst (convert_docutils unmatched_env ''fit'' [other_rubric] None None None ''ahelp''
          (\<lparr>references = {''foo''}, store_versions = None\<rparr>\<lparr>store_versions := Some store_2\<rparr>))
     = fst (convert_docutils unmatched_env ''fit'' [other_rubric] None None None ''ahelp''
          \<lparr>references = {''foo''}, store_versions = None\<rparr>)"
    using store_is_reset_registry_is_kept [THEN conjunct1] .
  then show ?thesis
    by (simp add: convert_docutils_def unmatched_env_def unmatched_def
          reset_stored_versions_def)
qed

lemma target_only:
  "convert_para target_only_para True {''foo''} =
     (Inr (Element ''PARA'' [] (Some []) None []), {''foo''})"
  "convert_para target_only_para True {} =
     (Inl (ValueError ''Found un-referenced target block''), {})"
  by code_simp+

lemma second_conversion_state:
  "snd (convert_docutils unmatched_env ''fit'' [other_rubric] None None None ''ahelp''
          \<lparr>references = {''foo''}, store_versions = Some store_2\<rparr>)
     = \<lparr>references = {''foo''}, store_versions = Some empty_store\<rparr>"
  by (simp add: convert_docutils_def unmatched_env_def unmatched_def reset_stored_versions_def)

text \<open>
  C2 as stated fails for the registry. Rendering the sample paragraph of one document
  records \<open>foo\<close>; a conversion that starts in that state resets the store and keeps
  \<open>foo\<close>; so a target \<open>foo\<close> in the next document is accepted, although no reference of
  that document names it, where the empty registry raises.
\<close>

theorem registry_leaks_counterexample:
  "snd (convert_para sample_para True {}) = {''foo''}
   \<and> snd (convert_docutils unmatched_env ''fit'' [other_rubric] None None None ''ahelp''
          \<lparr>references = {''foo''}, store_versions = Some store_2\<rparr>)
       = \<lparr>references = {''foo''}, store_versions = Some empty_store\<rparr>
   \<and> convert_para target_only_para True {''foo''} =
       (Inr (Element ''PARA'' [] (Some []) None []), {''foo''})
   \<and> convert_para target_only_para True {} =
       (Inl (ValueError ''Found un-referenced target block''), {})"
  using sample_para_converts target_only second_conversion_state by simp

end
